theory Spec2Isabelle
  imports Main "HOL-Library.Sublist"
begin

unbundle bit_operations_syntax

section \<open>Text\<close>

text \<open>
  A Python \<open>str\<close> is a sequence of Unicode code points, so a string is a list of
  natural numbers (each below \<open>0x110000\<close> in a real \<open>str\<close>). \<open>py\<close> turns a
  literal of the theory into such a string.
\<close>

type_synonym pystr = "nat list"

definition py :: "string \<Rightarrow> pystr" where
  "py s = map of_char s"

definition valid_str :: "pystr \<Rightarrow> bool" where
  "valid_str s = list_all (\<lambda>c. c < 0x110000) s"

text \<open>\<open>q in t\<close> on two strings: \<open>q\<close> occurs in \<open>t\<close> as a contiguous run.\<close>

fun str_in :: "pystr \<Rightarrow> pystr \<Rightarrow> bool" where
  "str_in q [] = (q = [])"
| "str_in q (c # cs) = (prefix q (c # cs) \<or> str_in q cs)"

text \<open>
  \<open>str.lower\<close> needs the case tables of the Unicode database, which are not part of
  the repository: the functions that call it take it as the parameter \<open>lower\<close>.
  \<open>ascii_lower\<close> is what \<open>str.lower\<close> computes on ASCII text.
\<close>

definition ascii_lower :: "pystr \<Rightarrow> pystr" where
  "ascii_lower s = map (\<lambda>c. if 65 \<le> c \<and> c \<le> 90 then c + 32 else c) s"

section \<open>Data model\<close>

record Book =
  title :: pystr
  author :: pystr
  isbn :: pystr
  genre :: pystr
  year_published :: int
  date_added :: pystr
  status :: pystr

text \<open>
  The fields of \<open>datetime.now()\<close> that \<open>strftime("%Y-%m-%d")\<close> reads. A
  \<open>datetime\<close> has a year from 1 to 9999, a month from 1 to 12 and a day from 1 to 31.
\<close>

record datetime =
  year :: nat
  month :: nat
  day :: nat


definition digit :: "nat \<Rightarrow> nat" where
  "digit d = 48 + d"

definition is_digit :: "nat \<Rightarrow> bool" where
  "is_digit c = (48 \<le> c \<and> c \<le> 57)"

text \<open>The decimal digits of a number, as \<open>int.__repr__\<close> and \<open>%d\<close> write them.\<close>

function decimal :: "nat \<Rightarrow> pystr" where
  "decimal n = (if n < 10 then [digit n] else decimal (n div 10) @ [digit (n mod 10)])"
  by pat_completeness auto
termination
  by (relation "measure id") auto

declare decimal.simps [simp del]

text \<open>
  \<open>strftime("%Y-%m-%d")\<close>, which hands the format to the C library: \<open>%m\<close> and \<open>%d\<close>
  are two digits; \<open>%Y\<close> is the year in decimal, which the GNU C library does not pad,
  so that a year below 1000 has fewer than four digits.
\<close>

definition two_digits :: "nat \<Rightarrow> pystr" where
  "two_digits n = (if n < 10 then [48, digit n] else decimal n)"

definition strftime_ymd :: "datetime \<Rightarrow> pystr" where
  "strftime_ymd d = decimal (year d) @ [45] @ two_digits (month d) @ [45] @ two_digits (day d)"

section \<open>The program state and its effects\<close>

text \<open>
  The state a method runs in: \<open>self.books\<close>, the content of the file named
  \<open>self.data_file\<close> (\<open>None\<close> when the file does not exist), and what the program
  has done to the outside so far, in order: every line printed and every write of
  the file.
\<close>

datatype event = Print pystr | Write pystr

record state =
  books :: "Book list"
  disk :: "pystr option"
  effects :: "event list"

definition print_line :: "pystr \<Rightarrow> state \<Rightarrow> state" where
  "print_line msg s = s\<lparr>effects := effects s @ [Print msg]\<rparr>"

section \<open>json.dump, as save\_library calls it\<close>

text \<open>
  \<open>json.dump(obj, f, indent=4)\<close> on a list of dictionaries whose keys are strings and
  whose values are strings and integers: \<open>ensure_ascii\<close> is on, the item separator is
  a comma and the key separator a colon and a space.
\<close>

datatype pyval = PStr pystr | PInt int

definition hexdigit :: "nat \<Rightarrow> nat" where
  "hexdigit d = (if d < 10 then 48 + d else 87 + d)"

text \<open>\<open>'{0:04x}'.format(n)\<close>, which the encoder calls with \<open>n < 0x10000\<close> only.\<close>

definition hex4 :: "nat \<Rightarrow> pystr" where
  "hex4 n =
     [hexdigit (n div 4096 mod 16), hexdigit (n div 256 mod 16),
      hexdigit (n div 16 mod 16), hexdigit (n mod 16)]"

text \<open>
  The replacement of one code point in \<open>encode_basestring_ascii\<close>: the short escapes
  of \<open>ESCAPE_DCT\<close>, printable ASCII as it is, everything else as \<open>\uXXXX\<close>, a code
  point beyond the basic plane as a surrogate pair.
\<close>

definition escape_char :: "nat \<Rightarrow> pystr" where
  "escape_char c =
     (if c = 92 then [92, 92]
      else if c = 34 then [92, 34]
      else if c = 8 then [92, 98]
      else if c = 12 then [92, 102]
      else if c = 10 then [92, 110]
      else if c = 13 then [92, 114]
      else if c = 9 then [92, 116]
      else if 32 \<le> c \<and> c \<le> 126 then [c]
      else if c < 0x10000 then [92, 117] @ hex4 c
      else
        (let n = c - 0x10000;
             s1 = 0xd800 OR (drop_bit 10 n AND 0x3ff);
             s2 = 0xdc00 OR (n AND 0x3ff)
         in [92, 117] @ hex4 s1 @ [92, 117] @ hex4 s2))"

definition encode_basestring_ascii :: "pystr \<Rightarrow> pystr" where
  "encode_basestring_ascii s = [34] @ concat (map escape_char s) @ [34]"

text \<open>\<open>int.__repr__\<close>: the decimal digits, after a minus sign for a negative number.\<close>

definition int_repr :: "int \<Rightarrow> pystr" where
  "int_repr i = (if i < 0 then 45 # decimal (nat (- i)) else decimal (nat i))"

definition encode_value :: "pyval \<Rightarrow> pystr" where
  "encode_value v = (case v of PStr s \<Rightarrow> encode_basestring_ascii s | PInt i \<Rightarrow> int_repr i)"

definition newline_indent :: "nat \<Rightarrow> pystr" where
  "newline_indent level = 10 # replicate (4 * level) 32"

fun join :: "pystr \<Rightarrow> pystr list \<Rightarrow> pystr" where
  "join sep [] = []"
| "join sep [x] = x"
| "join sep (x # y # ys) = x @ sep @ join sep (y # ys)"

definition encode_item :: "pystr \<times> pyval \<Rightarrow> pystr" where
  "encode_item kv = encode_basestring_ascii (fst kv) @ [58, 32] @ encode_value (snd kv)"

definition iterencode_dict :: "nat \<Rightarrow> (pystr \<times> pyval) list \<Rightarrow> pystr" where
  "iterencode_dict level dct =
     (if dct = [] then [123, 125]
      else [123] @ newline_indent (level + 1) @
           join ([44] @ newline_indent (level + 1)) (map encode_item dct) @
           newline_indent level @ [125])"

definition iterencode_list :: "nat \<Rightarrow> (pystr \<times> pyval) list list \<Rightarrow> pystr" where
  "iterencode_list level lst =
     (if lst = [] then [91, 93]
      else [91] @ newline_indent (level + 1) @
           join ([44] @ newline_indent (level + 1)) (map (iterencode_dict (level + 1)) lst) @
           newline_indent level @ [93])"

text \<open>\<open>book.__dict__\<close>: the fields in the order the dataclass declares them.\<close>

definition book_dict :: "Book \<Rightarrow> (pystr \<times> pyval) list" where
  "book_dict b =
     [(py ''title'', PStr (title b)), (py ''author'', PStr (author b)),
      (py ''isbn'', PStr (isbn b)), (py ''genre'', PStr (genre b)),
      (py ''year_published'', PInt (year_published b)),
      (py ''date_added'', PStr (date_added b)), (py ''status'', PStr (status b))]"

definition json_dump :: "Book list \<Rightarrow> pystr" where
  "json_dump bs = iterencode_list 0 (map book_dict bs)"

section \<open>The catalog operations\<close>

definition save_library :: "state \<Rightarrow> state" where
  "save_library s =
     s\<lparr>disk := Some (json_dump (books s)),
       effects := effects s @ [Write (json_dump (books s))]\<rparr>"

definition add_book ::
  "pystr \<Rightarrow> pystr \<Rightarrow> pystr \<Rightarrow> pystr \<Rightarrow> int \<Rightarrow> pystr \<Rightarrow> datetime \<Rightarrow> state \<Rightarrow> state" where
  "add_book title' author' isbn' genre' year_published' status' now s =
     (if list_ex (\<lambda>book. isbn book = isbn') (books s)
      then print_line (py ''Error: Book with ISBN '' @ isbn' @
                       py '' already exists in the library.'') s
      else
        (let new_book = \<lparr>title = title', author = author', isbn = isbn', genre = genre',
                         year_published = year_published',
                         date_added = strftime_ymd now, status = status'\<rparr>
         in print_line (py ''Book '' @ [39] @ title' @ [39] @ py '' added successfully!'')
              (save_library (s\<lparr>books := books s @ [new_book]\<rparr>))))"

text \<open>
  The loops of \<open>remove_book\<close> and \<open>update_book_status\<close> stop at the first record
  whose isbn is the one asked for: \<open>first_index\<close> is its index.
\<close>

fun first_index :: "pystr \<Rightarrow> Book list \<Rightarrow> nat option" where
  "first_index isbn' [] = None"
| "first_index isbn' (book # rest) =
     (if isbn book = isbn' then Some 0 else map_option Suc (first_index isbn' rest))"

text \<open>\<open>list.pop(i)\<close> for an index inside the list.\<close>

definition pop :: "nat \<Rightarrow> 'a list \<Rightarrow> 'a list" where
  "pop i xs = take i xs @ drop (Suc i) xs"

definition remove_book :: "pystr \<Rightarrow> state \<Rightarrow> state" where
  "remove_book isbn' s =
     (case first_index isbn' (books s) of
        Some i \<Rightarrow>
          (let removed_book = books s ! i
           in print_line (py ''Book '' @ [39] @ title removed_book @ [39] @
                          py '' removed successfully!'')
                (save_library (s\<lparr>books := pop i (books s)\<rparr>)))
      | None \<Rightarrow>
          print_line (py ''Error: Book with ISBN '' @ isbn' @ py '' not found in the library.'')
            s)"

definition matches :: "(pystr \<Rightarrow> pystr) \<Rightarrow> pystr \<Rightarrow> Book \<Rightarrow> bool" where
  "matches lower query book =
     (str_in query (lower (title book)) \<or> str_in query (lower (author book)) \<or>
      str_in query (lower (isbn book)) \<or> str_in query (lower (genre book)))"

definition search_books :: "(pystr \<Rightarrow> pystr) \<Rightarrow> pystr \<Rightarrow> state \<Rightarrow> Book list \<times> state" where
  "search_books lower query s = (filter (matches lower (lower query)) (books s), s)"

definition update_book_status :: "pystr \<Rightarrow> pystr \<Rightarrow> state \<Rightarrow> state" where
  "update_book_status isbn' new_status s =
     (case first_index isbn' (books s) of
        Some i \<Rightarrow>
          (let book = (books s ! i)\<lparr>status := new_status\<rparr>
           in print_line (py ''Status updated successfully for '' @ [39] @ title book @ [39] @
                          [33])
                (save_library (s\<lparr>books := (books s)[i := book]\<rparr>)))
      | None \<Rightarrow>
          print_line (py ''Error: Book with ISBN '' @ isbn' @ py '' not found in the library.'')
            s)"

section \<open>Facts about the helpers\<close>

lemma str_in_iff: "str_in q t \<longleftrightarrow> (\<exists>ps ss. t = ps @ q @ ss)"
proof (induction t)
  case Nil
  then show ?case by auto
next
  case (Cons c cs)
  show ?case
  proof
    assume "str_in q (c # cs)"
    then consider "prefix q (c # cs)" | "str_in q cs" by auto
    then show "\<exists>ps ss. c # cs = ps @ q @ ss"
    proof cases
      case 1
      then obtain ss where "c # cs = q @ ss" by (auto simp: prefix_def)
      then have "c # cs = [] @ q @ ss" by simp
      then show ?thesis by blast
    next
      case 2
      with Cons.IH obtain ps ss where "cs = ps @ q @ ss" by blast
      then have "c # cs = (c # ps) @ q @ ss" by simp
      then show ?thesis by blast
    qed
  next
    assume "\<exists>ps ss. c # cs = ps @ q @ ss"
    then obtain ps ss where eq: "c # cs = ps @ q @ ss" by blast
    show "str_in q (c # cs)"
    proof (cases ps)
      case Nil
      with eq have "prefix q (c # cs)" by (simp add: prefix_def)
      then show ?thesis by simp
    next
      case (Cons p ps')
      with eq have "cs = ps' @ q @ ss" by simp
      with Cons.IH have "str_in q cs" by blast
      then show ?thesis by simp
    qed
  qed
qed

lemma first_index_None: "first_index i bs = None \<longleftrightarrow> (\<forall>b \<in> set bs. isbn b \<noteq> i)"
  by (induction bs) auto

lemma first_index_Some:
  "first_index i bs = Some n \<Longrightarrow>
     n < length bs \<and> isbn (bs ! n) = i \<and> (\<forall>b \<in> set (take n bs). isbn b \<noteq> i)"
proof (induction bs arbitrary: n)
  case Nil
  then show ?case by simp
next
  case (Cons b bs)
  then show ?case by (cases n) (auto split: if_splits)
qed

lemma first_index_append:
  "\<forall>p \<in> set ps. isbn p \<noteq> i \<Longrightarrow> isbn b = i \<Longrightarrow> first_index i (ps @ b # ss) = Some (length ps)"
  by (induction ps) auto

lemma first_index_split:
  assumes "first_index i bs = Some n"
  shows "bs = take n bs @ (bs ! n) # drop (Suc n) bs"
  using first_index_Some [OF assms] by (simp add: id_take_nth_drop)

section \<open>json.load, as load\_library calls it\<close>

text \<open>
  The decoder of CPython's \<open>json\<close> module with its default settings (strict, no hooks),
  following \<open>json/decoder.py\<close> and \<open>json/scanner.py\<close>: \<open>scanstring\<close>,
  \<open>JSONObject\<close>, \<open>JSONArray\<close> and \<open>scan_once\<close>. Where the Python source takes a string and
  an index, the model takes the text from that index on and returns the rest of the text
  with the value. Digits and hexadecimal digits are the ASCII ones, as in the C scanner
  that the module loads.

  The decoder raises three exceptions on a text. \<open>JSONDecodeError\<close> is for a text that is
  not JSON. \<open>RecursionError\<close> comes from the interpreter when arrays and objects are
  nested deeper than its recursion limit leaves room for at the call: the scanner
  enters a recursive call for every array and object it opens. \<open>ValueError\<close> comes from
  \<open>int\<close> when an integer has more digits than the interpreter's limit for the conversion
  of integers (4300 unless it is changed; 0 switches the limit off). The two limits
  belong to the interpreter, not to the repository: the functions take them as the
  parameters \<open>room\<close> (how many arrays and objects may be open at once) and
  \<open>max_digits\<close>.

  A number with a fraction or an exponent, and the constants \<open>NaN\<close>, \<open>Infinity\<close> and
  \<open>-Infinity\<close>, become a \<open>float\<close> in Python: \<open>JFloat\<close> keeps the text that \<open>float\<close> would be
  called on. An object is the \<open>dict\<close> built from its pairs: keys in the order of their
  first occurrence, the last value of a repeated key.

  The code points used below: 9 tab, 10 line feed, 13 carriage return, 32 space,
  34 double quote, 43 plus, 44 comma, 45 minus, 46 full stop, 47 slash, 48 to 57 the digits,
  58 colon, 69 E, 91 and 93 square brackets, 92 backslash, 98 b, 101 e, 102 f, 110 n, 114 r,
  116 t, 117 u, 123 and 125 braces.
\<close>

datatype exn = JSONDecodeError | RecursionError | ValueError | TypeError

datatype json =
  JNull | JBool bool | JInt int | JFloat pystr | JStr pystr
| JArray "json list" | JObject "(pystr \<times> json) list"

definition is_ws :: "nat \<Rightarrow> bool" where
  "is_ws c = (c = 32 \<or> c = 9 \<or> c = 10 \<or> c = 13)"

definition skip_ws :: "pystr \<Rightarrow> pystr" where
  "skip_ws s = dropWhile is_ws s"

definition hexval :: "nat \<Rightarrow> nat option" where
  "hexval c =
     (if 48 \<le> c \<and> c \<le> 57 then Some (c - 48)
      else if 97 \<le> c \<and> c \<le> 102 then Some (c - 87)
      else if 65 \<le> c \<and> c \<le> 70 then Some (c - 55)
      else None)"

text \<open>\<open>_decode_uXXXX\<close>: the four hexadecimal digits after \<open>\u\<close>.\<close>

definition decode_uXXXX :: "pystr \<Rightarrow> (nat \<times> pystr) option" where
  "decode_uXXXX s =
     (case s of
        a # b # c # d # rest \<Rightarrow>
          (case (hexval a, hexval b, hexval c, hexval d) of
             (Some x3, Some x2, Some x1, Some x0) \<Rightarrow>
               Some (x3 * 4096 + x2 * 256 + x1 * 16 + x0, rest)
           | _ \<Rightarrow> None)
      | _ \<Rightarrow> None)"

text \<open>The table \<open>BACKSLASH\<close> of one-letter escapes.\<close>

definition backslash :: "nat \<Rightarrow> nat option" where
  "backslash esc =
     (if esc = 34 then Some 34 else if esc = 92 then Some 92 else if esc = 47 then Some 47
      else if esc = 98 then Some 8 else if esc = 102 then Some 12
      else if esc = 110 then Some 10 else if esc = 114 then Some 13
      else if esc = 116 then Some 9 else None)"

definition append_char :: "nat \<Rightarrow> (pystr \<times> pystr) option \<Rightarrow> (pystr \<times> pystr) option" where
  "append_char ch res = map_option (\<lambda>(str, rest). (ch # str, rest)) res"

text \<open>
  \<open>scanstring\<close> starts after the opening quote and returns the decoded string and the text
  after the closing quote; \<open>None\<close> is \<open>JSONDecodeError\<close>, the only exception it raises.
  Two \<open>\u\<close> escapes, a high surrogate and then a low one, are read as one code point
  beyond the basic plane.
\<close>

lemma decode_uXXXX_length: "decode_uXXXX s = Some (u, r) \<Longrightarrow> length r < length s"
  by (auto simp: decode_uXXXX_def split: list.splits option.splits)

function scanstring :: "pystr \<Rightarrow> (pystr \<times> pystr) option" where
  "scanstring s =
     (case s of
        [] \<Rightarrow> None
      | c # cs \<Rightarrow>
          if c = 34 then Some ([], cs)
          else if c = 92 then
            (case cs of
               [] \<Rightarrow> None
             | esc # es \<Rightarrow>
                 if esc \<noteq> 117 then
                   (case backslash esc of
                      None \<Rightarrow> None
                    | Some ch \<Rightarrow> append_char ch (scanstring es))
                 else
                   (case decode_uXXXX es of
                      None \<Rightarrow> None
                    | Some (uni, r) \<Rightarrow>
                        if 0xd800 \<le> uni \<and> uni \<le> 0xdbff \<and> take 2 r = [92, 117] then
                          (case decode_uXXXX (drop 2 r) of
                             None \<Rightarrow> None
                           | Some (uni2, r2) \<Rightarrow>
                               if 0xdc00 \<le> uni2 \<and> uni2 \<le> 0xdfff
                               then append_char
                                      (0x10000 + (push_bit 10 (uni - 0xd800) OR (uni2 - 0xdc00)))
                                      (scanstring r2)
                               else append_char uni (scanstring r))
                        else append_char uni (scanstring r)))
          else if c < 32 then None
          else append_char c (scanstring cs))"
  by pat_completeness auto
termination
proof (relation "measure length")
  show "wf (measure length)" by simp
next
  fix s c cs esc es ch
  assume "s = c # cs" "cs = esc # es"
  then show "(es, s) \<in> measure length" by simp
next
  fix s c cs esc es x uni r x2 uni2 r2
  assume "s = c # cs" "cs = esc # es" "decode_uXXXX es = Some x" "(uni, r) = x"
    "decode_uXXXX (drop 2 r) = Some x2" "(uni2, r2) = x2"
  then have "length r < length es" "length r2 < length (drop 2 r)"
    using decode_uXXXX_length [of es uni r] decode_uXXXX_length [of "drop 2 r" uni2 r2] by auto
  with \<open>s = c # cs\<close> \<open>cs = esc # es\<close> show "(r2, s) \<in> measure length" by simp
next
  fix s c cs esc es x uni r x2 uni2 r2
  assume "s = c # cs" "cs = esc # es" "decode_uXXXX es = Some x" "(uni, r) = x"
  then have "length r < length es"
    using decode_uXXXX_length [of es uni r] by auto
  with \<open>s = c # cs\<close> \<open>cs = esc # es\<close> show "(r, s) \<in> measure length" by simp
next
  fix s c cs esc es x uni r
  assume "s = c # cs" "cs = esc # es" "decode_uXXXX es = Some x" "(uni, r) = x"
  then have "length r < length es"
    using decode_uXXXX_length [of es uni r] by auto
  with \<open>s = c # cs\<close> \<open>cs = esc # es\<close> show "(r, s) \<in> measure length" by simp
next
  fix s c cs
  assume "s = c # cs"
  then show "(cs, s) \<in> measure length" by simp
qed

declare scanstring.simps [simp del]


definition digits_value :: "pystr \<Rightarrow> nat" where
  "digits_value ds = foldl (\<lambda>acc d. 10 * acc + (d - 48)) 0 ds"

text \<open>
  \<open>int\<close> on the text of an integer, an optional minus sign and decimal digits: more
  digits than the limit raise \<open>ValueError\<close>.
\<close>

definition parse_int :: "nat \<Rightarrow> pystr \<Rightarrow> exn + int" where
  "parse_int max_digits s =
     (let ds = (if take 1 s = [45] then drop 1 s else s)
      in if max_digits \<noteq> 0 \<and> max_digits < length ds then Inl ValueError
         else Inr (if take 1 s = [45] then - int (digits_value ds) else int (digits_value ds)))"

text \<open>An optional leading character out of \<open>cs\<close>.\<close>

definition opt_char :: "nat list \<Rightarrow> pystr \<Rightarrow> pystr \<times> pystr" where
  "opt_char cs s =
     (case s of
        [] \<Rightarrow> ([], s)
      | c # r \<Rightarrow> if c \<in> set cs then ([c], r) else ([], s))"

text \<open>One digit or more.\<close>

definition digits1 :: "pystr \<Rightarrow> (pystr \<times> pystr) option" where
  "digits1 s =
     (if takeWhile is_digit s = [] then None
      else Some (takeWhile is_digit s, dropWhile is_digit s))"

text \<open>The three groups of \<open>NUMBER_RE\<close>: integer part, fraction, exponent.\<close>

definition integer_part :: "pystr \<Rightarrow> (pystr \<times> pystr) option" where
  "integer_part s =
     (case opt_char [45] s of
        (sg, s1) \<Rightarrow>
          (case s1 of
             [] \<Rightarrow> None
           | d # ds \<Rightarrow>
               if d = 48 then Some (sg @ [48], ds)
               else if is_digit d then Some (sg @ takeWhile is_digit s1, dropWhile is_digit s1)
               else None))"

definition fraction :: "pystr \<Rightarrow> pystr \<times> pystr" where
  "fraction s =
     (case s of
        [] \<Rightarrow> ([], s)
      | p # r \<Rightarrow>
          if p = 46 then
            (case digits1 r of
               None \<Rightarrow> ([], s)
             | Some (ds, r1) \<Rightarrow> (p # ds, r1))
          else ([], s))"

definition exponent :: "pystr \<Rightarrow> pystr \<times> pystr" where
  "exponent s =
     (case s of
        [] \<Rightarrow> ([], s)
      | e # r \<Rightarrow>
          if e = 101 \<or> e = 69 then
            (case opt_char [45, 43] r of
               (sg, r1) \<Rightarrow>
                 (case digits1 r1 of
                    None \<Rightarrow> ([], s)
                  | Some (ds, r2) \<Rightarrow> (e # sg @ ds, r2)))
          else ([], s))"

definition match_number :: "pystr \<Rightarrow> (pystr \<times> pystr \<times> pystr \<times> pystr) option" where
  "match_number s =
     (case integer_part s of
        None \<Rightarrow> None
      | Some (integer, s2) \<Rightarrow>
          (case fraction s2 of
             (frac, s3) \<Rightarrow>
               (case exponent s3 of
                  (exp, s4) \<Rightarrow> Some (integer, frac, exp, s4))))"

text \<open>The value of a matched number: \<open>float\<close> of the text, or \<open>int\<close> of the integer part.\<close>

definition number :: "nat \<Rightarrow> pystr \<Rightarrow> (exn + json \<times> pystr) option" where
  "number max_digits s =
     (case match_number s of
        None \<Rightarrow> None
      | Some (integer, frac, exp, rest) \<Rightarrow>
          Some (if frac \<noteq> [] \<or> exp \<noteq> [] then Inr (JFloat (integer @ frac @ exp), rest)
                else
                  (case parse_int max_digits integer of
                     Inl e \<Rightarrow> Inl e
                   | Inr i \<Rightarrow> Inr (JInt i, rest))))"

text \<open>\<open>dict(pairs)\<close>: a later pair with a key already present replaces its value in place.\<close>

fun dict_set :: "(pystr \<times> json) list \<Rightarrow> pystr \<Rightarrow> json \<Rightarrow> (pystr \<times> json) list" where
  "dict_set [] k v = [(k, v)]"
| "dict_set ((k', v') # d) k v =
     (if k' = k then (k, v) # d else (k', v') # dict_set d k v)"

definition dict :: "(pystr \<times> json) list \<Rightarrow> (pystr \<times> json) list" where
  "dict pairs = foldl (\<lambda>d (k, v). dict_set d k v) [] pairs"

lemma append_char_Some:
  "append_char ch res = Some (str, r) \<longleftrightarrow> (\<exists>str'. res = Some (str', r) \<and> str = ch # str')"
  by (cases res) (auto simp: append_char_def)

lemma scanstring_Nil: "scanstring [] = None"
  by (simp add: scanstring.simps)

lemma scanstring_quote: "scanstring (34 # cs) = Some ([], cs)"
  by (simp add: scanstring.simps)

lemma scanstring_plain:
  "c \<noteq> 34 \<Longrightarrow> c \<noteq> 92 \<Longrightarrow> 32 \<le> c \<Longrightarrow> scanstring (c # cs) = append_char c (scanstring cs)"
  by (simp add: scanstring.simps [of "c # cs"])

lemma scanstring_control: "c < 32 \<Longrightarrow> scanstring (c # cs) = None"
  by (simp add: scanstring.simps [of "c # cs"])

lemma scanstring_backslash_end: "scanstring [92] = None"
  by (simp add: scanstring.simps [of "[92]"])

lemma scanstring_escape:
  "esc \<noteq> 117 \<Longrightarrow>
   scanstring (92 # esc # es) =
     (case backslash esc of None \<Rightarrow> None | Some ch \<Rightarrow> append_char ch (scanstring es))"
  by (simp add: scanstring.simps [of "92 # esc # es"])

lemma scanstring_unicode:
  "scanstring (92 # 117 # es) =
     (case decode_uXXXX es of
        None \<Rightarrow> None
      | Some (uni, r) \<Rightarrow>
          if 0xd800 \<le> uni \<and> uni \<le> 0xdbff \<and> take 2 r = [92, 117] then
            (case decode_uXXXX (drop 2 r) of
               None \<Rightarrow> None
             | Some (uni2, r2) \<Rightarrow>
                 if 0xdc00 \<le> uni2 \<and> uni2 \<le> 0xdfff
                 then append_char (0x10000 + (push_bit 10 (uni - 0xd800) OR (uni2 - 0xdc00)))
                        (scanstring r2)
                 else append_char uni (scanstring r))
          else append_char uni (scanstring r))"
  by (simp add: scanstring.simps [of "92 # 117 # es"])

lemma scanstring_length: "scanstring s = Some (str, r) \<Longrightarrow> length r < length s"
proof (induction s arbitrary: str r rule: length_induct)
  case (1 s)
  note IH = "1.IH" [rule_format]
  show ?case
  proof (cases s)
    case Nil
    with "1.prems" show ?thesis by (simp add: scanstring_Nil)
  next
    case (Cons c cs)
    note s = Cons
    consider "c = 34" | "c < 32" | "c \<noteq> 34" "c \<noteq> 92" "32 \<le> c" | "c = 92" by linarith
    then show ?thesis
    proof cases
      case 1
      with "1.prems" s show ?thesis by (simp add: scanstring_quote)
    next
      case 2
      with "1.prems" s show ?thesis by (simp add: scanstring_control)
    next
      case 3
      with "1.prems" s obtain str' where "scanstring cs = Some (str', r)"
        by (auto simp: scanstring_plain append_char_Some)
      from IH [OF _ this] s show ?thesis by simp
    next
      case 4
      show ?thesis
      proof (cases cs)
        case Nil
        with "1.prems" s 4 show ?thesis by (simp add: scanstring_backslash_end)
      next
        case (Cons esc es)
        note cs = Cons
        show ?thesis
        proof (cases "esc = 117")
          case False
          with "1.prems" s 4 cs obtain str' where "scanstring es = Some (str', r)"
            by (auto simp: scanstring_escape append_char_Some split: option.splits)
          from IH [OF _ this] s cs show ?thesis by simp
        next
          case True
          from "1.prems" s 4 cs True obtain uni r1 where d1: "decode_uXXXX es = Some (uni, r1)"
            by (auto simp: scanstring_unicode split: option.splits)
          from decode_uXXXX_length [OF d1] have l1: "length r1 < length es" .
          from "1.prems" s 4 cs True d1
          consider str' where "scanstring r1 = Some (str', r)"
            | uni2 r2 str' where "decode_uXXXX (drop 2 r1) = Some (uni2, r2)"
                "scanstring r2 = Some (str', r)"
            by (auto simp: scanstring_unicode append_char_Some split: option.splits if_splits)
          then show ?thesis
          proof cases
            case 1
            from IH [OF _ 1] l1 s cs show ?thesis by simp
          next
            case 2
            from decode_uXXXX_length [OF 2(1)] have "length r2 < length r1" by simp
            moreover from IH [OF _ 2(2)] l1 s cs this have "length r < length r2" by simp
            ultimately show ?thesis using l1 s cs by simp
          qed
        qed
      qed
    qed
  qed
qed

lemma skip_ws_length: "length (skip_ws s) \<le> length s"
  by (simp add: skip_ws_def length_dropWhile_le)

lemma skip_ws_Cons_length: "skip_ws s = c # r \<Longrightarrow> length r < length s"
  using skip_ws_length [of s] by simp


text \<open>
  \<open>scan_once\<close> with the two loops of \<open>JSONArray\<close> and \<open>JSONObject\<close>; the code before each
  loop (skipping white space, the empty array and the empty object) is in \<open>scan_once\<close>.
  Opening an array or an object takes one unit of \<open>room\<close>, and with none left
  \<open>RecursionError\<close> is raised. The loops test that \<open>scan_once\<close> has consumed some text
  before they go on, which makes the recursion terminate; \<open>scan_once\<close> always has
  (\<open>consumes\<close> below), so the test never fails, and \<open>array_loop_unfold\<close> and
  \<open>object_loop_unfold\<close> state the loops without it.
\<close>

function scan_once :: "nat \<Rightarrow> nat \<Rightarrow> pystr \<Rightarrow> exn + json \<times> pystr"
  and array_loop :: "nat \<Rightarrow> nat \<Rightarrow> pystr \<Rightarrow> json list \<Rightarrow> exn + json \<times> pystr"
  and object_loop :: "nat \<Rightarrow> nat \<Rightarrow> pystr \<Rightarrow> (pystr \<times> json) list \<Rightarrow> exn + json \<times> pystr"
where
  "scan_once max_digits room s =
     (case s of
        [] \<Rightarrow> Inl JSONDecodeError
      | nextchar # rest \<Rightarrow>
          if nextchar = 34 then
            (case scanstring rest of
               None \<Rightarrow> Inl JSONDecodeError
             | Some (str, r) \<Rightarrow> Inr (JStr str, r))
          else if nextchar = 123 then
            (if room = 0 then Inl RecursionError
             else
               (case skip_ws rest of
                  [] \<Rightarrow> Inl JSONDecodeError
                | c # r \<Rightarrow>
                    if c = 125 then Inr (JObject [], r)
                    else if c = 34 then object_loop max_digits (room - 1) r []
                    else Inl JSONDecodeError))
          else if nextchar = 91 then
            (if room = 0 then Inl RecursionError
             else
               (case skip_ws rest of
                  [] \<Rightarrow> Inl JSONDecodeError
                | c # r \<Rightarrow>
                    if c = 93 then Inr (JArray [], r)
                    else array_loop max_digits (room - 1) (c # r) []))
          else if take 4 s = py ''null'' then Inr (JNull, drop 4 s)
          else if take 4 s = py ''true'' then Inr (JBool True, drop 4 s)
          else if take 5 s = py ''false'' then Inr (JBool False, drop 5 s)
          else
            (case number max_digits s of
               Some res \<Rightarrow> res
             | None \<Rightarrow>
                 if take 3 s = py ''NaN'' then Inr (JFloat (py ''NaN''), drop 3 s)
                 else if take 8 s = py ''Infinity'' then Inr (JFloat (py ''Infinity''), drop 8 s)
                 else if take 9 s = py ''-Infinity''
                 then Inr (JFloat (py ''-Infinity''), drop 9 s)
                 else Inl JSONDecodeError))"
| "array_loop max_digits room s values =
     (case scan_once max_digits room s of
        Inl e \<Rightarrow> Inl e
      | Inr (v, r) \<Rightarrow>
          if length r < length s then
            (case skip_ws r of
               [] \<Rightarrow> Inl JSONDecodeError
             | c # r1 \<Rightarrow>
                 if c = 93 then Inr (JArray (values @ [v]), r1)
                 else if c \<noteq> 44 then Inl JSONDecodeError
                 else array_loop max_digits room (skip_ws r1) (values @ [v]))
          else Inl JSONDecodeError)"
| "object_loop max_digits room s pairs =
     (case scanstring s of
        None \<Rightarrow> Inl JSONDecodeError
      | Some (key, r) \<Rightarrow>
          (case skip_ws r of
             [] \<Rightarrow> Inl JSONDecodeError
           | c # r1 \<Rightarrow>
               if c \<noteq> 58 then Inl JSONDecodeError
               else
                 (case scan_once max_digits room (skip_ws r1) of
                    Inl e \<Rightarrow> Inl e
                  | Inr (v, r2) \<Rightarrow>
                      if length r2 < length (skip_ws r1) then
                        (case skip_ws r2 of
                           [] \<Rightarrow> Inl JSONDecodeError
                         | c2 # r3 \<Rightarrow>
                             if c2 = 125 then Inr (JObject (dict (pairs @ [(key, v)])), r3)
                             else if c2 \<noteq> 44 then Inl JSONDecodeError
                             else
                               (case skip_ws r3 of
                                  [] \<Rightarrow> Inl JSONDecodeError
                                | c3 # r4 \<Rightarrow>
                                    if c3 \<noteq> 34 then Inl JSONDecodeError
                                    else object_loop max_digits room r4 (pairs @ [(key, v)])))
                      else Inl JSONDecodeError)))"
  by pat_completeness auto
termination
  apply (relation "measure (\<lambda>x. case x of Inl (_, _, s) \<Rightarrow> 2 * length s
                                   | Inr (Inl (_, _, s, _)) \<Rightarrow> 2 * length s + 1
                                   | Inr (Inr (_, _, s, _)) \<Rightarrow> 2 * length s + 1)")
    apply (auto dest!: skip_ws_Cons_length scanstring_length)
  subgoal for max_digits room s a b x22 using skip_ws_length [of x22] by linarith
  subgoal for s b x22 using skip_ws_length [of x22] by linarith
  subgoal for max_digits room s b x22 aa ba x22a x22b using skip_ws_length [of x22] by linarith
  done

declare scan_once.simps [simp del] array_loop.simps [simp del] object_loop.simps [simp del]

text \<open>
  \<open>json.loads\<close> on a \<open>str\<close>: a text that starts with a byte order mark is refused;
  otherwise \<open>decode\<close> skips white space, scans one value and accepts only white space
  after it.
\<close>

definition json_loads :: "nat \<Rightarrow> nat \<Rightarrow> pystr \<Rightarrow> exn + json" where
  "json_loads max_digits room s =
     (if take 1 s = [0xfeff] then Inl JSONDecodeError
      else
        (case scan_once max_digits room (skip_ws s) of
           Inl e \<Rightarrow> Inl e
         | Inr (obj, r) \<Rightarrow> if skip_ws r = [] then Inr obj else Inl JSONDecodeError))"

section \<open>The decoder consumes what it reads\<close>

lemma opt_char_split: "opt_char cs s = (a, r) \<Longrightarrow> s = a @ r"
  by (auto simp: opt_char_def split: list.splits if_splits)

lemma digits1_split: "digits1 s = Some (ds, r) \<Longrightarrow> s = ds @ r \<and> ds \<noteq> []"
  by (auto simp: digits1_def split: if_splits)

lemma integer_part_split: "integer_part s = Some (ip, r) \<Longrightarrow> s = ip @ r \<and> ip \<noteq> []"
proof -
  assume a: "integer_part s = Some (ip, r)"
  obtain sg s1 where o: "opt_char [45] s = (sg, s1)" by (cases "opt_char [45] s")
  from opt_char_split [OF o] have s: "s = sg @ s1" .
  show ?thesis
  proof (cases s1)
    case Nil
    with a o show ?thesis by (simp add: integer_part_def)
  next
    case (Cons d ds)
    show ?thesis
    proof (cases "d = 48")
      case True
      with a o Cons have "ip = sg @ [48]" "r = ds" by (simp_all add: integer_part_def)
      with s Cons True show ?thesis by simp
    next
      case False
      with a o Cons have dg: "is_digit d"
        by (simp add: integer_part_def split: if_splits)
      with a o Cons False have "ip = sg @ d # takeWhile is_digit ds" "r = dropWhile is_digit ds"
        by (simp_all add: integer_part_def)
      with s Cons show ?thesis by simp
    qed
  qed
qed

lemma fraction_split: "fraction s = (f, r) \<Longrightarrow> s = f @ r"
  by (auto simp: fraction_def split: list.splits if_splits option.splits dest: digits1_split)

lemma exponent_split: "exponent s = (e, r) \<Longrightarrow> s = e @ r"
  by (auto simp: exponent_def split: list.splits if_splits option.splits prod.splits
      dest!: digits1_split opt_char_split)

lemma match_number_split:
  assumes "match_number s = Some (ip, frac, ex, r)"
  shows "s = ip @ frac @ ex @ r \<and> ip \<noteq> []"
proof -
  from assms obtain s2 where i: "integer_part s = Some (ip, s2)"
    by (auto simp: match_number_def split: option.splits prod.splits)
  obtain frac' s3 where f: "fraction s2 = (frac', s3)" by (cases "fraction s2")
  obtain ex' s4 where e: "exponent s3 = (ex', s4)" by (cases "exponent s3")
  from assms i f e have "frac = frac'" "ex = ex'" "r = s4"
    by (simp_all add: match_number_def)
  with integer_part_split [OF i] fraction_split [OF f] exponent_split [OF e]
  show ?thesis by simp
qed

lemma number_length:
  assumes "number max_digits s = Some (Inr (v, r))"
  shows "length r < length s"
proof -
  from assms obtain ip frac ex r' where m: "match_number s = Some (ip, frac, ex, r')"
    by (auto simp: number_def split: option.splits)
  from assms m have "r = r'"
    by (auto simp: number_def split: if_splits sum.splits)
  with match_number_split [OF m] show ?thesis by auto
qed

lemma scan_once_Nil: "scan_once max_digits room [] = Inl JSONDecodeError"
  by (simp add: scan_once.simps)

lemma scan_once_string:
  "scan_once max_digits room (34 # rest) =
     (case scanstring rest of
        None \<Rightarrow> Inl JSONDecodeError
      | Some (str, r) \<Rightarrow> Inr (JStr str, r))"
  by (simp add: scan_once.simps [of _ _ "34 # rest"])

lemma scan_once_object:
  "scan_once max_digits room (123 # rest) =
     (if room = 0 then Inl RecursionError
      else
        (case skip_ws rest of
           [] \<Rightarrow> Inl JSONDecodeError
         | c # r \<Rightarrow>
             if c = 125 then Inr (JObject [], r)
             else if c = 34 then object_loop max_digits (room - 1) r []
             else Inl JSONDecodeError))"
  by (simp add: scan_once.simps [of _ _ "123 # rest"])

lemma scan_once_array:
  "scan_once max_digits room (91 # rest) =
     (if room = 0 then Inl RecursionError
      else
        (case skip_ws rest of
           [] \<Rightarrow> Inl JSONDecodeError
         | c # r \<Rightarrow>
             if c = 93 then Inr (JArray [], r)
             else array_loop max_digits (room - 1) (c # r) []))"
  by (simp add: scan_once.simps [of _ _ "91 # rest"])

lemma scan_once_other:
  "c \<noteq> 34 \<Longrightarrow> c \<noteq> 123 \<Longrightarrow> c \<noteq> 91 \<Longrightarrow>
   scan_once max_digits room (c # rest) =
     (if take 4 (c # rest) = py ''null'' then Inr (JNull, drop 4 (c # rest))
      else if take 4 (c # rest) = py ''true'' then Inr (JBool True, drop 4 (c # rest))
      else if take 5 (c # rest) = py ''false'' then Inr (JBool False, drop 5 (c # rest))
      else
        (case number max_digits (c # rest) of
           Some res \<Rightarrow> res
         | None \<Rightarrow>
             if take 3 (c # rest) = py ''NaN'' then Inr (JFloat (py ''NaN''), drop 3 (c # rest))
             else if take 8 (c # rest) = py ''Infinity''
             then Inr (JFloat (py ''Infinity''), drop 8 (c # rest))
             else if take 9 (c # rest) = py ''-Infinity''
             then Inr (JFloat (py ''-Infinity''), drop 9 (c # rest))
             else Inl JSONDecodeError))"
  by (simp add: scan_once.simps [of _ _ "c # rest"])

lemma consumes:
  "scan_once max_digits room s = Inr (v, r) \<longrightarrow> length r < length s"
  "array_loop max_digits1 room1 s1 vals = Inr (v1, r1) \<longrightarrow> length r1 < length s1"
  "object_loop max_digits2 room2 s2 pairs = Inr (v2, r2) \<longrightarrow> length r2 < length s2"
proof (induction max_digits room s and max_digits1 room1 s1 vals and max_digits2 room2 s2 pairs
    arbitrary: v r and v1 r1 and v2 r2 rule: scan_once_array_loop_object_loop.induct)
  case (1 max_digits room s)
  show ?case
  proof
    assume a: "scan_once max_digits room s = Inr (v, r)"
    then obtain nextchar rest where s: "s = nextchar # rest"
      by (cases s) (auto simp: scan_once_Nil)
    consider "nextchar = 34" | "nextchar = 123" | "nextchar = 91"
      | "nextchar \<noteq> 34" "nextchar \<noteq> 123" "nextchar \<noteq> 91" by blast
    then show "length r < length s"
    proof cases
      case 1
      with a s obtain str where "scanstring rest = Some (str, r)"
        by (auto simp: scan_once_string split: option.splits)
      from scanstring_length [OF this] s show ?thesis by simp
    next
      case 2
      with a s have room: "room \<noteq> 0"
        by (auto simp: scan_once_object split: if_splits)
      with a s 2 obtain c r' where sk: "skip_ws rest = c # r'"
        by (cases "skip_ws rest") (auto simp: scan_once_object)
      from skip_ws_Cons_length [OF sk] have l: "length r' < length rest" .
      show ?thesis
      proof (cases "c = 125")
        case True
        with a s 2 room sk l show ?thesis by (auto simp: scan_once_object)
      next
        case False
        with a s 2 room sk have c: "c = 34"
          and o: "object_loop max_digits (room - 1) r' [] = Inr (v, r)"
          by (auto simp: scan_once_object split: if_splits)
        have n34: "nextchar \<noteq> 34" using 2 by simp
        from "1.IH"(1) [OF s n34 2 room sk False c] o have "length r < length r'" by simp
        with l s show ?thesis by simp
      qed
    next
      case 3
      with a s have room: "room \<noteq> 0"
        by (auto simp: scan_once_array split: if_splits)
      with a s 3 obtain c r' where sk: "skip_ws rest = c # r'"
        by (cases "skip_ws rest") (auto simp: scan_once_array)
      from skip_ws_Cons_length [OF sk] have l: "length r' < length rest" .
      show ?thesis
      proof (cases "c = 93")
        case True
        with a s 3 room sk l show ?thesis by (auto simp: scan_once_array)
      next
        case False
        with a s 3 room sk have o: "array_loop max_digits (room - 1) (c # r') [] = Inr (v, r)"
          by (auto simp: scan_once_array split: if_splits)
        have n: "nextchar \<noteq> 34" "nextchar \<noteq> 123" using 3 by simp_all
        from "1.IH"(2) [OF s n 3 room sk False] o have "length r < length (c # r')" by simp
        with l s show ?thesis by simp
      qed
    next
      case 4
      from a have a': "scan_once max_digits room (nextchar # rest) = Inr (v, r)" by (simp add: s)
      have "r = drop 4 s \<or> r = drop 5 s \<or> r = drop 3 s \<or> r = drop 8 s \<or> r = drop 9 s \<or>
            number max_digits s = Some (Inr (v, r))"
        using a' unfolding scan_once_other [OF 4] s
        by (simp split: if_splits option.splits)
      then show ?thesis
        using s number_length [of max_digits s v r] by auto
    qed
  qed
next
  case (2 max_digits room s "values")
  show ?case
  proof
    assume a: "array_loop max_digits room s values = Inr (v1, r1)"
    then obtain v r where so: "scan_once max_digits room s = Inr (v, r)"
      and l: "length r < length s"
      by (auto simp: array_loop.simps [of _ _ s] split: sum.splits if_splits)
    from a so l obtain c r' where sk: "skip_ws r = c # r'"
      by (cases "skip_ws r") (auto simp: array_loop.simps [of _ _ s])
    from skip_ws_Cons_length [OF sk] have l': "length r' < length r" .
    show "length r1 < length s"
    proof (cases "c = 93")
      case True
      with a so l sk l' show ?thesis by (auto simp: array_loop.simps [of _ _ s])
    next
      case False
      with a so l sk have c: "\<not> c \<noteq> 44"
        and al: "array_loop max_digits room (skip_ws r') (values @ [v]) = Inr (v1, r1)"
        by (auto simp: array_loop.simps [of _ _ s] split: if_splits)
      from "2.IH"(2) [OF so refl l sk False c] al
      have "length r1 < length (skip_ws r')" by simp
      with skip_ws_length [of r'] l l' show ?thesis by simp
    qed
  qed
next
  case (3 max_digits room s pairs)
  show ?case
  proof
    assume a: "object_loop max_digits room s pairs = Inr (v2, r2)"
    then obtain key r where ss: "scanstring s = Some (key, r)"
      by (auto simp: object_loop.simps [of _ _ s] split: option.splits)
    from scanstring_length [OF ss] have l0: "length r < length s" .
    from a ss obtain c ra where sk: "skip_ws r = c # ra"
      by (cases "skip_ws r") (auto simp: object_loop.simps [of _ _ s])
    from skip_ws_Cons_length [OF sk] have l1: "length ra < length r" .
    from a ss sk have c: "\<not> c \<noteq> 58"
      by (auto simp: object_loop.simps [of _ _ s] split: if_splits)
    from a ss sk c obtain v rb where so: "scan_once max_digits room (skip_ws ra) = Inr (v, rb)"
      and l2: "length rb < length (skip_ws ra)"
      by (auto simp: object_loop.simps [of _ _ s] split: sum.splits if_splits)
    from a ss sk c so l2 obtain c2 rc where sk2: "skip_ws rb = c2 # rc"
      by (cases "skip_ws rb") (auto simp: object_loop.simps [of _ _ s])
    from skip_ws_Cons_length [OF sk2] have l3: "length rc < length rb" .
    have base: "length rc < length s"
      using l0 l1 l2 l3 skip_ws_length [of ra] by linarith
    show "length r2 < length s"
    proof (cases "c2 = 125")
      case True
      with a ss sk c so l2 sk2 base show ?thesis by (auto simp: object_loop.simps [of _ _ s])
    next
      case False
      with a ss sk c so l2 sk2 have c2: "\<not> c2 \<noteq> 44"
        by (auto simp: object_loop.simps [of _ _ s] split: if_splits)
      from a ss sk c so l2 sk2 False c2 obtain c3 rd where sk3: "skip_ws rc = c3 # rd"
        by (cases "skip_ws rc") (auto simp: object_loop.simps [of _ _ s])
      from skip_ws_Cons_length [OF sk3] have l4: "length rd < length rc" .
      from a ss sk c so l2 sk2 False c2 sk3 have c3: "\<not> c3 \<noteq> 34"
        and ol: "object_loop max_digits room rd (pairs @ [(key, v)]) = Inr (v2, r2)"
        by (auto simp: object_loop.simps [of _ _ s] split: if_splits)
      from "3.IH"(2) [OF ss refl sk c so refl l2 sk2 False c2 sk3 c3] ol
      have "length r2 < length rd" by simp
      with base l4 show ?thesis by simp
    qed
  qed
qed

lemma array_loop_unfold:
  "array_loop max_digits room s values =
     (case scan_once max_digits room s of
        Inl e \<Rightarrow> Inl e
      | Inr (v, r) \<Rightarrow>
          (case skip_ws r of
             [] \<Rightarrow> Inl JSONDecodeError
           | c # r1 \<Rightarrow>
               if c = 93 then Inr (JArray (values @ [v]), r1)
               else if c \<noteq> 44 then Inl JSONDecodeError
               else array_loop max_digits room (skip_ws r1) (values @ [v])))"
  by (subst array_loop.simps) (simp add: consumes(1) split: sum.splits)

lemma object_loop_unfold:
  "object_loop max_digits room s pairs =
     (case scanstring s of
        None \<Rightarrow> Inl JSONDecodeError
      | Some (key, r) \<Rightarrow>
          (case skip_ws r of
             [] \<Rightarrow> Inl JSONDecodeError
           | c # r1 \<Rightarrow>
               if c \<noteq> 58 then Inl JSONDecodeError
               else
                 (case scan_once max_digits room (skip_ws r1) of
                    Inl e \<Rightarrow> Inl e
                  | Inr (v, r2) \<Rightarrow>
                      (case skip_ws r2 of
                         [] \<Rightarrow> Inl JSONDecodeError
                       | c2 # r3 \<Rightarrow>
                           if c2 = 125 then Inr (JObject (dict (pairs @ [(key, v)])), r3)
                           else if c2 \<noteq> 44 then Inl JSONDecodeError
                           else
                             (case skip_ws r3 of
                                [] \<Rightarrow> Inl JSONDecodeError
                              | c3 # r4 \<Rightarrow>
                                  if c3 \<noteq> 34 then Inl JSONDecodeError
                                  else object_loop max_digits room r4 (pairs @ [(key, v)]))))))"
  by (subst object_loop.simps) (simp add: consumes(1) split: option.splits list.splits sum.splits)

section \<open>load\_library\<close>

text \<open>
  \<open>load_library\<close> catches \<open>JSONDecodeError\<close> only: \<open>RecursionError\<close> and \<open>ValueError\<close> from
  the decoder pass through it. \<open>[Book(**book) for book in data]\<close> raises \<open>TypeError\<close> when
  \<open>data\<close> cannot be iterated (a number, \<open>true\<close>, \<open>false\<close>, \<open>null\<close>), when an element is
  not a dictionary, and when the keys of a dictionary are not exactly the seven field
  names. Nothing catches these, and the constructor of \<open>LibraryManager\<close> ends with
  them: \<open>Raised\<close>.

  Python does not check the values: a dictionary with the seven keys makes a \<open>Book\<close> also
  when a value is not of the declared type (a number as title, say). Such a record has
  no counterpart in the record type \<open>Book\<close>; the model then answers \<open>OutsideModel\<close> and
  claims nothing about what follows. The file is a text here: a file whose bytes cannot
  be decoded is outside the model as well.
\<close>

datatype failure = Raised exn | OutsideModel

text \<open>Iterating the decoded value: a list gives its elements, a dictionary its keys, a
  string its characters.\<close>

definition iterate :: "json \<Rightarrow> json list option" where
  "iterate data =
     (case data of
        JArray vs \<Rightarrow> Some vs
      | JObject kvs \<Rightarrow> Some (map (\<lambda>kv. JStr (fst kv)) kvs)
      | JStr s \<Rightarrow> Some (map (\<lambda>c. JStr [c]) s)
      | _ \<Rightarrow> None)"

definition field_names :: "pystr list" where
  "field_names =
     [py ''title'', py ''author'', py ''isbn'', py ''genre'', py ''year_published'',
      py ''date_added'', py ''status'']"

definition str_field :: "(pystr \<times> json) list \<Rightarrow> pystr \<Rightarrow> pystr option" where
  "str_field kvs k = (case map_of kvs k of Some (JStr s) \<Rightarrow> Some s | _ \<Rightarrow> None)"

definition int_field :: "(pystr \<times> json) list \<Rightarrow> pystr \<Rightarrow> int option" where
  "int_field kvs k = (case map_of kvs k of Some (JInt i) \<Rightarrow> Some i | _ \<Rightarrow> None)"

definition typed_book :: "(pystr \<times> json) list \<Rightarrow> Book option" where
  "typed_book kvs =
     (case str_field kvs (py ''title'') of None \<Rightarrow> None | Some t \<Rightarrow>
      case str_field kvs (py ''author'') of None \<Rightarrow> None | Some a \<Rightarrow>
      case str_field kvs (py ''isbn'') of None \<Rightarrow> None | Some i \<Rightarrow>
      case str_field kvs (py ''genre'') of None \<Rightarrow> None | Some g \<Rightarrow>
      case int_field kvs (py ''year_published'') of None \<Rightarrow> None | Some y \<Rightarrow>
      case str_field kvs (py ''date_added'') of None \<Rightarrow> None | Some d \<Rightarrow>
      case str_field kvs (py ''status'') of None \<Rightarrow> None | Some st \<Rightarrow>
        Some \<lparr>title = t, author = a, isbn = i, genre = g, year_published = y,
              date_added = d, status = st\<rparr>)"

definition make_book :: "json \<Rightarrow> failure + Book" where
  "make_book book =
     (case book of
        JObject kvs \<Rightarrow>
          if list_all (\<lambda>k. k \<in> set field_names) (map fst kvs) \<and>
             list_all (\<lambda>k. k \<in> set (map fst kvs)) field_names
          then (case typed_book kvs of None \<Rightarrow> Inl OutsideModel | Some b \<Rightarrow> Inr b)
          else Inl (Raised TypeError)
      | _ \<Rightarrow> Inl (Raised TypeError))"

text \<open>
  The comprehension raises as soon as one element does, also after an element that was
  outside the model.
\<close>

fun make_books :: "json list \<Rightarrow> failure + Book list" where
  "make_books [] = Inr []"
| "make_books (v # vs) =
     (case make_book v of
        Inl (Raised e) \<Rightarrow> Inl (Raised e)
      | Inl OutsideModel \<Rightarrow>
          (case make_books vs of Inl (Raised e) \<Rightarrow> Inl (Raised e) | _ \<Rightarrow> Inl OutsideModel)
      | Inr b \<Rightarrow> (case make_books vs of Inl e \<Rightarrow> Inl e | Inr bs \<Rightarrow> Inr (b # bs)))"

definition load_library :: "nat \<Rightarrow> nat \<Rightarrow> state \<Rightarrow> failure + state" where
  "load_library max_digits room s =
     (case disk s of
        None \<Rightarrow> Inr (s\<lparr>books := []\<rparr>)
      | Some content \<Rightarrow>
          (case json_loads max_digits room content of
             Inl JSONDecodeError \<Rightarrow>
               Inr (print_line (py ''Error: Invalid JSON file. Starting with empty library.'')
                      (s\<lparr>books := []\<rparr>))
           | Inl e \<Rightarrow> Inl (Raised e)
           | Inr data \<Rightarrow>
               (case iterate data of
                  None \<Rightarrow> Inl (Raised TypeError)
                | Some vs \<Rightarrow>
                    (case make_books vs of
                       Inl e \<Rightarrow> Inl e
                     | Inr bs \<Rightarrow> Inr (s\<lparr>books := bs\<rparr>)))))"

section \<open>A sample catalog\<close>

definition gatsby :: Book where
  "gatsby = \<lparr>title = py ''The Great Gatsby'', author = py ''F. Scott Fitzgerald'',
             isbn = py ''9780743273565'', genre = py ''Fiction'', year_published = 1925,
             date_added = py ''2024-05-01'', status = py ''to_read''\<rparr>"

definition orwell :: Book where
  "orwell = \<lparr>title = py ''1984'', author = py ''George Orwell'', isbn = py ''111'',
             genre = py ''Fiction'', year_published = 1949,
             date_added = py ''2024-05-02'', status = py ''to_read''\<rparr>"

definition shelf :: state where
  "shelf = \<lparr>books = [gatsby, orwell], disk = Some (json_dump [gatsby, orwell]), effects = []\<rparr>"

definition orwell_again :: Book where
  "orwell_again = \<lparr>title = py ''Nineteen Eighty-Four'', author = py ''George Orwell'',
                   isbn = py ''111'', genre = py ''Fiction'', year_published = 1949,
                   date_added = py ''2024-06-01'', status = py ''reading''\<rparr>"

definition truncated_file :: pystr where
  "truncated_file = py ''[{\"title\": \"Dune\"''"

definition short_record_file :: pystr where
  "short_record_file = py ''[{\"title\": \"Dune\"}]''"

text \<open>
  The texts \<open>json.dump\<close> writes for three catalogs: the first record of the shelf alone,
  the shelf with the status of the second record changed, and a catalog of one record
  added on 3 May 2024. Code point 10 is the line feed.
\<close>

definition gatsby_file :: pystr where
  "gatsby_file =
     py ''['' @ [10] @
     py ''    {'' @ [10] @
     py ''        \"title\": \"The Great Gatsby\",'' @ [10] @
     py ''        \"author\": \"F. Scott Fitzgerald\",'' @ [10] @
     py ''        \"isbn\": \"9780743273565\",'' @ [10] @
     py ''        \"genre\": \"Fiction\",'' @ [10] @
     py ''        \"year_published\": 1925,'' @ [10] @
     py ''        \"date_added\": \"2024-05-01\",'' @ [10] @
     py ''        \"status\": \"to_read\"'' @ [10] @
     py ''    }'' @ [10] @
     py '']''"

definition updated_file :: pystr where
  "updated_file =
     py ''['' @ [10] @
     py ''    {'' @ [10] @
     py ''        \"title\": \"The Great Gatsby\",'' @ [10] @
     py ''        \"author\": \"F. Scott Fitzgerald\",'' @ [10] @
     py ''        \"isbn\": \"9780743273565\",'' @ [10] @
     py ''        \"genre\": \"Fiction\",'' @ [10] @
     py ''        \"year_published\": 1925,'' @ [10] @
     py ''        \"date_added\": \"2024-05-01\",'' @ [10] @
     py ''        \"status\": \"to_read\"'' @ [10] @
     py ''    },'' @ [10] @
     py ''    {'' @ [10] @
     py ''        \"title\": \"1984\",'' @ [10] @
     py ''        \"author\": \"George Orwell\",'' @ [10] @
     py ''        \"isbn\": \"111\",'' @ [10] @
     py ''        \"genre\": \"Fiction\",'' @ [10] @
     py ''        \"year_published\": 1949,'' @ [10] @
     py ''        \"date_added\": \"2024-05-02\",'' @ [10] @
     py ''        \"status\": \"abandoned\"'' @ [10] @
     py ''    }'' @ [10] @
     py '']''"


section \<open>Facts about the operations\<close>

lemma list_ex_isbn: "list_ex (\<lambda>book. isbn book = i) bs \<longleftrightarrow> (\<exists>b \<in> set bs. isbn b = i)"
  by (simp add: list_ex_iff)

lemma first_index_present:
  "\<exists>b \<in> set bs. isbn b = i \<Longrightarrow> \<exists>n. first_index i bs = Some n"
  using first_index_None [of i bs] by (cases "first_index i bs") auto




lemma replicate_4: "replicate 4 x = [x, x, x, x]"
  by (simp add: numeral_eq_Suc)

lemma replicate_8: "replicate 8 x = [x, x, x, x, x, x, x, x]"
  by (simp add: numeral_eq_Suc)

lemmas dump_eval =
  json_dump_def iterencode_list_def iterencode_dict_def book_dict_def encode_item_def
  encode_value_def encode_basestring_ascii_def escape_char_def int_repr_def decimal.simps
  digit_def newline_indent_def py_def replicate_4 replicate_8

lemma dump_gatsby: "json_dump [gatsby] = gatsby_file"
  by (simp add: gatsby_def gatsby_file_def dump_eval)

lemma dump_updated: "json_dump [gatsby, orwell\<lparr>status := py ''abandoned''\<rparr>] = updated_file"
  by (simp add: gatsby_def orwell_def updated_file_def dump_eval)


lemma pop_split: "pop (length ps) (ps @ b # ss) = ps @ ss"
  by (simp add: pop_def)

lemma first_index_least:
  assumes "n < length bs" "isbn (bs ! n) = i" "\<forall>k<n. isbn (bs ! k) \<noteq> i"
  shows "first_index i bs = Some n"
proof -
  have "bs = take n bs @ (bs ! n) # drop (Suc n) bs"
    using assms(1) by (simp add: id_take_nth_drop)
  moreover have "\<forall>p \<in> set (take n bs). isbn p \<noteq> i"
  proof
    fix p
    assume "p \<in> set (take n bs)"
    then obtain k where k: "k < length (take n bs)" "take n bs ! k = p"
      by (auto simp: in_set_conv_nth)
    then have "k < n" "bs ! k = p" by simp_all
    with assms(3) show "isbn p \<noteq> i" by auto
  qed
  ultimately have "first_index i bs = Some (length (take n bs))"
    using first_index_append [of "take n bs" i "bs ! n" "drop (Suc n) bs"] assms(2) by simp
  then show ?thesis using assms(1) by simp
qed

lemma first_index_same_isbns:
  "map isbn bs' = map isbn bs \<Longrightarrow> first_index i bs' = first_index i bs"
proof (induction bs arbitrary: bs')
  case Nil
  then show ?case by simp
next
  case (Cons b bs)
  from Cons.prems obtain c cs where bs': "bs' = c # cs" by (cases bs') auto
  with Cons.prems have "isbn c = isbn b" "map isbn cs = map isbn bs" by simp_all
  with Cons.IH [of cs] show ?case by (simp add: bs')
qed

lemma isbns_status_update:
  "n < length bs \<Longrightarrow> map isbn (bs[n := (bs ! n)\<lparr>status := st\<rparr>]) = map isbn bs"
  by (simp add: map_update list_update_same_conv)

lemma books_update_book_status:
  "books (update_book_status i st s) =
     (case first_index i (books s) of
        Some n \<Rightarrow> (books s)[n := (books s ! n)\<lparr>status := st\<rparr>]
      | None \<Rightarrow> books s)"
  by (simp add: update_book_status_def print_line_def save_library_def Let_def
      split: option.split)

lemma disk_update_book_status:
  "disk (update_book_status i st s) =
     (case first_index i (books s) of
        Some n \<Rightarrow> Some (json_dump (books (update_book_status i st s)))
      | None \<Rightarrow> disk s)"
  by (simp add: update_book_status_def print_line_def save_library_def Let_def
      split: option.split)

lemma books_remove_book:
  "books (remove_book i s) =
     (case first_index i (books s) of Some n \<Rightarrow> pop n (books s) | None \<Rightarrow> books s)"
  by (simp add: remove_book_def print_line_def save_library_def Let_def split: option.split)

lemma distinct_pop: "distinct (map f xs) \<Longrightarrow> distinct (map f (pop n xs))"
proof -
  assume d: "distinct (map f xs)"
  have "map f (pop n xs) = take n (map f xs) @ drop (Suc n) (map f xs)"
    by (simp add: pop_def take_map drop_map)
  moreover have "set (take n (map f xs)) \<inter> set (drop (Suc n) (map f xs)) = {}"
    using d by (simp add: set_take_disj_set_drop_if_distinct)
  ultimately show ?thesis using d by simp
qed

lemma books_add_book:
  "books (add_book t a i g y st now s) =
     (if \<exists>b \<in> set (books s). isbn b = i then books s
      else books s @ [\<lparr>title = t, author = a, isbn = i, genre = g, year_published = y,
                         date_added = strftime_ymd now, status = st\<rparr>])"
  by (simp add: add_book_def list_ex_isbn print_line_def save_library_def Let_def)

lemma str_in_Nil: "str_in [] t"
  by (cases t) simp_all

section \<open>Surrogate pairs\<close>

lemma and_1023: "(n::nat) AND 0x3ff = n mod 1024"
proof -
  have "(0x3ff::nat) = mask 10" by (simp add: mask_eq_exp_minus_1)
  then have "n AND 0x3ff = n AND mask 10" by (simp only:)
  also have "\<dots> = take_bit 10 n" by (rule take_bit_eq_mask [symmetric])
  also have "\<dots> = n mod 2 ^ 10" by (rule take_bit_eq_mod)
  finally show ?thesis by simp
qed

lemma or_disjoint:
  assumes "x < 2 ^ m"
  shows "push_bit m (k::nat) OR x = push_bit m k + x"
proof -
  have x: "take_bit m x = x" using assms by (simp add: take_bit_nat_eq_self)
  have "\<not> bit (push_bit m k) n \<or> \<not> bit x n" for n
  proof (cases "n < m")
    case True
    then show ?thesis by (simp add: bit_push_bit_iff)
  next
    case False
    have "bit x n \<longleftrightarrow> bit (take_bit m x) n" by (simp add: x)
    also have "\<dots> \<longleftrightarrow> n < m \<and> bit x n" by (simp add: bit_take_bit_iff)
    finally show ?thesis using False by simp
  qed
  then show ?thesis by (rule disjunctive_add [symmetric])
qed

lemma or_d800: "x < 1024 \<Longrightarrow> (0xd800::nat) OR x = 0xd800 + x"
  using or_disjoint [of x 10 54] by (simp add: push_bit_eq_mult)

lemma or_dc00: "x < 1024 \<Longrightarrow> (0xdc00::nat) OR x = 0xdc00 + x"
  using or_disjoint [of x 10 55] by (simp add: push_bit_eq_mult)

lemma surrogates:
  assumes "0x10000 \<le> c" "c < (0x110000::nat)"
  defines "n \<equiv> c - 0x10000"
  defines "s1 \<equiv> 0xd800 OR (drop_bit 10 n AND 0x3ff)"
  defines "s2 \<equiv> 0xdc00 OR (n AND 0x3ff)"
  shows "0xd800 \<le> s1 \<and> s1 \<le> 0xdbff \<and> 0xdc00 \<le> s2 \<and> s2 \<le> 0xdfff \<and>
         0x10000 + (push_bit 10 (s1 - 0xd800) OR (s2 - 0xdc00)) = c"
proof -
  have n: "n < 1048576" using assms by simp
  have hi: "drop_bit 10 n AND 0x3ff = n div 1024"
    using n by (simp add: and_1023 drop_bit_eq_div)
  have lo: "n AND 0x3ff = n mod 1024" by (rule and_1023)
  have hi_lt: "n div 1024 < 1024" using n by simp
  have s1: "s1 = 0xd800 + n div 1024" unfolding s1_def hi using hi_lt by (rule or_d800)
  have s2: "s2 = 0xdc00 + n mod 1024" unfolding s2_def lo by (rule or_dc00) simp
  have "push_bit 10 (s1 - 0xd800) OR (s2 - 0xdc00) = push_bit 10 (n div 1024) OR (n mod 1024)"
    by (simp add: s1 s2)
  also have "\<dots> = push_bit 10 (n div 1024) + n mod 1024"
    by (rule or_disjoint) simp
  also have "\<dots> = n" by (simp add: push_bit_eq_mult)
  finally have "0x10000 + (push_bit 10 (s1 - 0xd800) OR (s2 - 0xdc00)) = c"
    using assms(1) by (simp add: n_def)
  moreover have "n mod 1024 < 1024" by simp
  ultimately show ?thesis using s1 s2 hi_lt by simp
qed

section \<open>Evaluating the decoder\<close>

lemmas json_eval =
  json_loads_def scan_once.simps array_loop.simps object_loop.simps scanstring.simps
  number_def match_number_def integer_part_def opt_char_def digits1_def fraction_def
  exponent_def parse_int_def digits_value_def is_digit_def skip_ws_def is_ws_def py_def
  dict_def append_char_def backslash_def decode_uXXXX_def hexval_def

lemmas load_eval =
  load_library_def iterate_def make_book_def typed_book_def str_field_def int_field_def
  field_names_def print_line_def

text \<open>
  Arrays nested deeper than the interpreter has room for raise \<open>RecursionError\<close>, an
  integer with more digits than the limit raises \<open>ValueError\<close>, a fraction lifts that
  limit, and neither exception is caught by \<open>load_library\<close>.
\<close>

lemma json_loads_deep_nesting:
  "json_loads 4300 3 (py ''[[[[1]]]]'') = Inl RecursionError \<and>
   json_loads 4300 3 (py ''[[[['') = Inl RecursionError \<and>
   json_loads 4300 3 (py ''[[['') = Inl JSONDecodeError \<and>
   json_loads 4300 4 (py ''[[[[1]]]]'') = Inr (JArray [JArray [JArray [JArray [JInt 1]]]])"
  by (simp add: json_eval)

lemma json_loads_long_integer:
  "json_loads 5 994 (py ''[-12345, 123456'') = Inl ValueError \<and>
   json_loads 5 994 (py ''[-12345, 12345'') = Inl JSONDecodeError \<and>
   json_loads 0 994 (py ''[-12345, 123456]'') = Inr (JArray [JInt (- 12345), JInt 123456]) \<and>
   json_loads 5 994 (py ''[1234567.5]'') = Inr (JArray [JFloat (py ''1234567.5'')])"
  by (simp add: json_eval)

lemma load_library_uncaught:
  "load_library 4300 3 \<lparr>books = [], disk = Some (py ''[[[[''), effects = []\<rparr> =
     Inl (Raised RecursionError) \<and>
   load_library 5 994 \<lparr>books = [], disk = Some (py ''[123456''), effects = []\<rparr> =
     Inl (Raised ValueError)"
  by (simp add: load_eval json_eval)

section \<open>The claims\<close>

text \<open>
  Claim C1. When a record of the catalog already has the isbn passed to \<open>add_book\<close>, the
  call prints the error naming that isbn and does nothing else: \<open>self.books\<close> and the
  backing file are as before, and the only effect added is that printed line (no write).
\<close>

theorem add_book_duplicate_rejected:
  assumes "\<exists>b \<in> set (books s). isbn b = i"
  shows "books (add_book t a i g y st now s) = books s \<and>
         disk (add_book t a i g y st now s) = disk s \<and>
         effects (add_book t a i g y st now s) =
           effects s @ [Print (py ''Error: Book with ISBN '' @ i @
                               py '' already exists in the library.'')]"
  using assms by (simp add: add_book_def list_ex_isbn print_line_def)

theorem add_book_duplicate_rejected_witness:
  "(\<exists>b \<in> set (books shelf). isbn b = py ''111'') \<and>
   books (add_book (py ''Animal Farm'') (py ''George Orwell'') (py ''111'') (py ''Satire'') 1945
            (py ''read'') \<lparr>year = 2024, month = 5, day = 3\<rparr> shelf) = [gatsby, orwell]"
proof -
  have h: "\<exists>b \<in> set (books shelf). isbn b = py ''111''"
    by (simp add: shelf_def orwell_def)
  show ?thesis
    using h add_book_duplicate_rejected [OF h] by (simp add: shelf_def)
qed

text \<open>
  Claim C2. A catalog in which no two records share an isbn stays so after any one call of
  \<open>add_book\<close>, \<open>remove_book\<close> or \<open>update_book_status\<close>, whatever the arguments.
\<close>

theorem no_duplicate_isbn_preserved:
  assumes "distinct (map isbn (books s))"
  shows "distinct (map isbn (books (add_book t a i g y st now s))) \<and>
         distinct (map isbn (books (remove_book j s))) \<and>
         distinct (map isbn (books (update_book_status k st' s)))"
proof (intro conjI)
  show "distinct (map isbn (books (add_book t a i g y st now s)))"
  proof (cases "\<exists>b \<in> set (books s). isbn b = i")
    case True
    then show ?thesis
      using assms by (simp add: books_add_book)
  next
    case False
    then have "i \<notin> isbn ` set (books s)" by auto
    with False show ?thesis
      using assms by (simp add: books_add_book)
  qed
  show "distinct (map isbn (books (remove_book j s)))"
    using assms by (simp add: books_remove_book distinct_pop split: option.split)
  show "distinct (map isbn (books (update_book_status k st' s)))"
  proof (cases "first_index k (books s)")
    case None
    then show ?thesis using assms by (simp add: books_update_book_status)
  next
    case (Some n)
    from first_index_Some [OF Some] have "n < length (books s)" by simp
    then show ?thesis
      using assms by (simp add: books_update_book_status Some isbns_status_update)
  qed
qed

theorem no_duplicate_isbn_preserved_witness:
  "distinct (map isbn (books shelf)) \<and>
   map isbn (books (add_book (py ''Animal Farm'') (py ''George Orwell'') (py ''222'')
        (py ''Satire'') 1945 (py ''read'') \<lparr>year = 2024, month = 5, day = 3\<rparr> shelf)) =
     [py ''9780743273565'', py ''111'', py ''222''] \<and>
   distinct (map isbn (books (add_book (py ''Animal Farm'') (py ''George Orwell'') (py ''222'')
        (py ''Satire'') 1945 (py ''read'') \<lparr>year = 2024, month = 5, day = 3\<rparr> shelf))) \<and>
   distinct (map isbn (books (remove_book (py ''111'') shelf))) \<and>
   distinct (map isbn (books (update_book_status (py ''111'') (py ''read'') shelf)))"
proof -
  have h: "distinct (map isbn (books shelf))"
    by (simp add: shelf_def gatsby_def orwell_def py_def)
  have "map isbn (books (add_book (py ''Animal Farm'') (py ''George Orwell'') (py ''222'')
        (py ''Satire'') 1945 (py ''read'') \<lparr>year = 2024, month = 5, day = 3\<rparr> shelf)) =
     [py ''9780743273565'', py ''111'', py ''222'']"
    by (simp add: books_add_book shelf_def gatsby_def orwell_def py_def)
  then show ?thesis
    using h no_duplicate_isbn_preserved [OF h, of "py ''Animal Farm''" "py ''George Orwell''"
        "py ''222''" "py ''Satire''" 1945 "py ''read''" "\<lparr>year = 2024, month = 5, day = 3\<rparr>"
        "py ''111''" "py ''111''" "py ''read''"]
    by blast
qed

text \<open>
  Claim C3. \<open>search_books\<close> returns the records of the catalog, in catalog order, for
  which the lower-cased query occurs in the lower-cased title, author, isbn or genre;
  it leaves the state as it is (no mutation, no write); the empty query returns every
  record; and two queries with the same lower-casing return the same records.
\<close>

theorem search_books_filter:
  "fst (search_books lower q s) =
     filter (\<lambda>b. sublist (lower q) (lower (title b)) \<or> sublist (lower q) (lower (author b)) \<or>
                 sublist (lower q) (lower (isbn b)) \<or> sublist (lower q) (lower (genre b)))
       (books s) \<and>
   snd (search_books lower q s) = s \<and>
   (lower [] = [] \<longrightarrow> fst (search_books lower [] s) = books s) \<and>
   (lower q = lower q' \<longrightarrow> search_books lower q s = search_books lower q' s)"
proof -
  have "matches lower (lower q) = (\<lambda>b. sublist (lower q) (lower (title b)) \<or>
          sublist (lower q) (lower (author b)) \<or> sublist (lower q) (lower (isbn b)) \<or>
          sublist (lower q) (lower (genre b)))"
    by (simp add: matches_def str_in_iff sublist_def fun_eq_iff)
  moreover have "lower [] = [] \<longrightarrow> matches lower (lower []) = (\<lambda>b. True)"
    by (simp add: matches_def str_in_Nil fun_eq_iff)
  ultimately show ?thesis
    by (simp add: search_books_def)
qed

theorem search_books_filter_witness:
  "ascii_lower [] = [] \<and>
   ascii_lower (py ''GATSBY'') = ascii_lower (py ''gatsby'') \<and>
   fst (search_books ascii_lower (py ''GATSBY'') shelf) = [gatsby] \<and>
   fst (search_books ascii_lower (py ''gatsby'') shelf) = [gatsby] \<and>
   fst (search_books ascii_lower (py ''fiction'') shelf) = [gatsby, orwell] \<and>
   fst (search_books ascii_lower [] shelf) = [gatsby, orwell] \<and>
   snd (search_books ascii_lower (py ''gatsby'') shelf) = shelf"
proof -
  have e: "ascii_lower [] = []" by (simp add: ascii_lower_def)
  have c: "ascii_lower (py ''GATSBY'') = ascii_lower (py ''gatsby'')"
    by (simp add: ascii_lower_def py_def)
  have g: "fst (search_books ascii_lower (py ''gatsby'') shelf) = [gatsby]"
    by (simp add: search_books_def shelf_def matches_def)
       (simp add: gatsby_def orwell_def ascii_lower_def py_def)
  have f: "fst (search_books ascii_lower (py ''fiction'') shelf) = [gatsby, orwell]"
    by (simp add: search_books_def shelf_def matches_def)
       (simp add: gatsby_def orwell_def ascii_lower_def py_def)
  from search_books_filter [of ascii_lower "py ''GATSBY''" shelf "py ''gatsby''"] c g
  have "fst (search_books ascii_lower (py ''GATSBY'') shelf) = [gatsby]" by simp
  moreover from search_books_filter [of ascii_lower "[]" shelf] e
  have "fst (search_books ascii_lower [] shelf) = books shelf" by blast
  moreover from search_books_filter [of ascii_lower "py ''gatsby''" shelf]
  have "snd (search_books ascii_lower (py ''gatsby'') shelf) = shelf" by blast
  ultimately show ?thesis using e c g f by (simp add: shelf_def)
qed

text \<open>
  Claim C4. When the catalog is \<open>ps @ b # ss\<close> with \<open>b\<close> the first record carrying the
  isbn, \<open>remove_book\<close> leaves \<open>ps @ ss\<close> (one record fewer, the others unchanged and in
  order), writes that catalog to the file and confirms with the title of \<open>b\<close>; such a
  split exists whenever the isbn is present. When no record carries the isbn, the catalog
  and the file are unchanged and the only effect is the printed line
  \<open>Error: Book with ISBN ... not found in the library.\<close> The witness removes the second
  record of the shelf: the file then holds the text of \<open>gatsby_file\<close>.
\<close>

theorem remove_book_removes_first:
  "(\<forall>ps b ss. books s = ps @ b # ss \<and> isbn b = i \<and> (\<forall>p \<in> set ps. isbn p \<noteq> i) \<longrightarrow>
      books (remove_book i s) = ps @ ss \<and>
      length (books (remove_book i s)) + 1 = length (books s) \<and>
      disk (remove_book i s) = Some (json_dump (ps @ ss)) \<and>
      effects (remove_book i s) =
        effects s @ [Write (json_dump (ps @ ss)),
                     Print (py ''Book '' @ [39] @ title b @ [39] @ py '' removed successfully!'')]) \<and>
   ((\<exists>b \<in> set (books s). isbn b = i) \<longrightarrow>
      (\<exists>ps b ss. books s = ps @ b # ss \<and> isbn b = i \<and> (\<forall>p \<in> set ps. isbn p \<noteq> i))) \<and>
   ((\<forall>b \<in> set (books s). isbn b \<noteq> i) \<longrightarrow>
      books (remove_book i s) = books s \<and> disk (remove_book i s) = disk s \<and>
      effects (remove_book i s) =
        effects s @ [Print (py ''Error: Book with ISBN '' @ i @ py '' not found in the library.'')])"
proof (intro conjI allI impI)
  fix ps b ss
  assume a: "books s = ps @ b # ss \<and> isbn b = i \<and> (\<forall>p \<in> set ps. isbn p \<noteq> i)"
  then have fi: "first_index i (books s) = Some (length ps)"
    by (simp add: first_index_append)
  from a have bs: "books s = ps @ b # ss" by simp
  show "books (remove_book i s) = ps @ ss"
    by (simp add: remove_book_def fi print_line_def save_library_def) (simp add: bs pop_split)
  show "length (books (remove_book i s)) + 1 = length (books s)"
    by (simp add: remove_book_def fi print_line_def save_library_def) (simp add: bs pop_split)
  show "disk (remove_book i s) = Some (json_dump (ps @ ss))"
    by (simp add: remove_book_def fi print_line_def save_library_def) (simp add: bs pop_split)
  show "effects (remove_book i s) =
        effects s @ [Write (json_dump (ps @ ss)),
                     Print (py ''Book '' @ [39] @ title b @ [39] @ py '' removed successfully!'')]"
    by (simp add: remove_book_def fi print_line_def save_library_def) (simp add: bs pop_split)
next
  assume "\<exists>b \<in> set (books s). isbn b = i"
  then obtain n where n: "first_index i (books s) = Some n"
    using first_index_present by blast
  from first_index_Some [OF n] first_index_split [OF n]
  show "\<exists>ps b ss. books s = ps @ b # ss \<and> isbn b = i \<and> (\<forall>p \<in> set ps. isbn p \<noteq> i)"
    by blast
next
  assume "\<forall>b \<in> set (books s). isbn b \<noteq> i"
  then have fi: "first_index i (books s) = None" by (simp add: first_index_None)
  show "books (remove_book i s) = books s"
    by (simp add: remove_book_def fi print_line_def)
  show "disk (remove_book i s) = disk s"
    by (simp add: remove_book_def fi print_line_def)
  show "effects (remove_book i s) =
        effects s @ [Print (py ''Error: Book with ISBN '' @ i @ py '' not found in the library.'')]"
    by (simp add: remove_book_def fi print_line_def)
qed

theorem remove_book_removes_first_witness:
  "books (remove_book (py ''111'') shelf) = [gatsby] \<and>
   disk (remove_book (py ''111'') shelf) = Some gatsby_file \<and>
   effects (remove_book (py ''111'') shelf) =
     [Write gatsby_file,
      Print (py ''Book '' @ [39] @ py ''1984'' @ [39] @ py '' removed successfully!'')] \<and>
   books (remove_book (py ''999'') shelf) = [gatsby, orwell] \<and>
   disk (remove_book (py ''999'') shelf) = disk shelf \<and>
   effects (remove_book (py ''999'') shelf) =
     [Print (py ''Error: Book with ISBN 999 not found in the library.'')]"
proof -
  have a: "books shelf = [gatsby] @ orwell # [] \<and> isbn orwell = py ''111'' \<and>
           (\<forall>p \<in> set [gatsby]. isbn p \<noteq> py ''111'')"
    by (simp add: shelf_def orwell_def gatsby_def py_def)
  have b: "\<forall>b \<in> set (books shelf). isbn b \<noteq> py ''999''"
    by (simp add: shelf_def orwell_def gatsby_def py_def)
  have t: "title orwell = py ''1984''" by (simp add: orwell_def)
  have m: "py ''Error: Book with ISBN '' @ py ''999'' @ py '' not found in the library.'' =
             py ''Error: Book with ISBN 999 not found in the library.''"
    by (simp add: py_def)
  from remove_book_removes_first [of shelf "py ''111''"] a
  have "books (remove_book (py ''111'') shelf) = [gatsby] @ [] \<and>
        disk (remove_book (py ''111'') shelf) = Some (json_dump ([gatsby] @ [])) \<and>
        effects (remove_book (py ''111'') shelf) =
          effects shelf @ [Write (json_dump ([gatsby] @ [])),
            Print (py ''Book '' @ [39] @ title orwell @ [39] @ py '' removed successfully!'')]"
    by blast
  moreover from remove_book_removes_first [of shelf "py ''999''"] b
  have "books (remove_book (py ''999'') shelf) = books shelf \<and>
        disk (remove_book (py ''999'') shelf) = disk shelf \<and>
        effects (remove_book (py ''999'') shelf) =
          effects shelf @
          [Print (py ''Error: Book with ISBN '' @ py ''999'' @ py '' not found in the library.'')]"
    by blast
  ultimately show ?thesis by (simp add: t m dump_gatsby) (simp add: shelf_def)
qed

text \<open>
  Claim C5. When \<open>n\<close> is the first index whose record carries the isbn,
  \<open>update_book_status\<close> keeps the length of the catalog and every record at another
  index, keeps title, author, isbn, genre, year\_published and date\_added of the record
  at \<open>n\<close>, sets its status to the new status, whatever text that is, and saves. When no
  record carries the isbn, catalog and file are unchanged and the only effect is the
  printed line \<open>Error: Book with ISBN ... not found in the library.\<close> The witness sets
  the status of the second record of the shelf to a text outside the three usual ones:
  the file then holds the text of \<open>updated_file\<close>.
\<close>

theorem update_book_status_frame:
  "(\<forall>n. n < length (books s) \<and> isbn (books s ! n) = i \<and> (\<forall>k<n. isbn (books s ! k) \<noteq> i) \<longrightarrow>
      length (books (update_book_status i st s)) = length (books s) \<and>
      (\<forall>k < length (books s). k \<noteq> n \<longrightarrow> books (update_book_status i st s) ! k = books s ! k) \<and>
      title (books (update_book_status i st s) ! n) = title (books s ! n) \<and>
      author (books (update_book_status i st s) ! n) = author (books s ! n) \<and>
      isbn (books (update_book_status i st s) ! n) = isbn (books s ! n) \<and>
      genre (books (update_book_status i st s) ! n) = genre (books s ! n) \<and>
      year_published (books (update_book_status i st s) ! n) = year_published (books s ! n) \<and>
      date_added (books (update_book_status i st s) ! n) = date_added (books s ! n) \<and>
      status (books (update_book_status i st s) ! n) = st \<and>
      disk (update_book_status i st s) = Some (json_dump (books (update_book_status i st s))) \<and>
      effects (update_book_status i st s) =
        effects s @ [Write (json_dump (books (update_book_status i st s))),
                     Print (py ''Status updated successfully for '' @ [39] @
                            title (books s ! n) @ [39] @ [33])]) \<and>
   ((\<forall>b \<in> set (books s). isbn b \<noteq> i) \<longrightarrow>
      books (update_book_status i st s) = books s \<and>
      disk (update_book_status i st s) = disk s \<and>
      effects (update_book_status i st s) =
        effects s @ [Print (py ''Error: Book with ISBN '' @ i @ py '' not found in the library.'')])"
proof (intro conjI allI impI)
  assume "\<forall>b \<in> set (books s). isbn b \<noteq> i"
  then have fi: "first_index i (books s) = None" by (simp add: first_index_None)
  show "books (update_book_status i st s) = books s"
    by (simp add: update_book_status_def fi print_line_def)
  show "disk (update_book_status i st s) = disk s"
    by (simp add: update_book_status_def fi print_line_def)
  show "effects (update_book_status i st s) =
        effects s @ [Print (py ''Error: Book with ISBN '' @ i @ py '' not found in the library.'')]"
    by (simp add: update_book_status_def fi print_line_def)
next
  fix n
  assume a: "n < length (books s) \<and> isbn (books s ! n) = i \<and> (\<forall>k<n. isbn (books s ! k) \<noteq> i)"
  then have fi: "first_index i (books s) = Some n" by (simp add: first_index_least)
  have bs: "books (update_book_status i st s) = (books s)[n := (books s ! n)\<lparr>status := st\<rparr>]"
    by (simp add: update_book_status_def fi print_line_def save_library_def Let_def)
  from a have n: "n < length (books s)" by simp
  show "length (books (update_book_status i st s)) = length (books s)"
    by (simp add: bs)
  show "title (books (update_book_status i st s) ! n) = title (books s ! n)"
    using n by (simp add: bs)
  show "author (books (update_book_status i st s) ! n) = author (books s ! n)"
    using n by (simp add: bs)
  show "isbn (books (update_book_status i st s) ! n) = isbn (books s ! n)"
    using n by (simp add: bs)
  show "genre (books (update_book_status i st s) ! n) = genre (books s ! n)"
    using n by (simp add: bs)
  show "year_published (books (update_book_status i st s) ! n) = year_published (books s ! n)"
    using n by (simp add: bs)
  show "date_added (books (update_book_status i st s) ! n) = date_added (books s ! n)"
    using n by (simp add: bs)
  show "status (books (update_book_status i st s) ! n) = st"
    using n by (simp add: bs)
  show "disk (update_book_status i st s) = Some (json_dump (books (update_book_status i st s)))"
    by (simp add: update_book_status_def fi print_line_def save_library_def Let_def)
  show "effects (update_book_status i st s) =
        effects s @ [Write (json_dump (books (update_book_status i st s))),
                     Print (py ''Status updated successfully for '' @ [39] @
                            title (books s ! n) @ [39] @ [33])]"
    by (simp add: update_book_status_def fi print_line_def save_library_def Let_def)
  fix k
  assume "k < length (books s)" "k \<noteq> n"
  then show "books (update_book_status i st s) ! k = books s ! k"
    by (simp add: bs)
qed

theorem update_book_status_frame_witness:
  "books (update_book_status (py ''111'') (py ''abandoned'') shelf) =
     [gatsby, orwell\<lparr>status := py ''abandoned''\<rparr>] \<and>
   disk (update_book_status (py ''111'') (py ''abandoned'') shelf) = Some updated_file \<and>
   effects (update_book_status (py ''111'') (py ''abandoned'') shelf) =
     [Write updated_file,
      Print (py ''Status updated successfully for '' @ [39] @ py ''1984'' @ [39] @ [33])] \<and>
   books (update_book_status (py ''999'') (py ''read'') shelf) = [gatsby, orwell] \<and>
   disk (update_book_status (py ''999'') (py ''read'') shelf) = disk shelf \<and>
   effects (update_book_status (py ''999'') (py ''read'') shelf) =
     [Print (py ''Error: Book with ISBN 999 not found in the library.'')]"
proof -
  have a: "1 < length (books shelf) \<and> isbn (books shelf ! 1) = py ''111'' \<and>
           (\<forall>k<1. isbn (books shelf ! k) \<noteq> py ''111'')"
    by (simp add: shelf_def orwell_def gatsby_def py_def)
  have b: "\<forall>b \<in> set (books shelf). isbn b \<noteq> py ''999''"
    by (simp add: shelf_def orwell_def gatsby_def py_def)
  let ?s = "update_book_status (py ''111'') (py ''abandoned'') shelf"
  from update_book_status_frame [of shelf "py ''111''" "py ''abandoned''"] a
  have len: "length (books ?s) = length (books shelf)"
    and other: "\<forall>k < length (books shelf). k \<noteq> 1 \<longrightarrow> books ?s ! k = books shelf ! k"
    and f: "title (books ?s ! 1) = title (books shelf ! 1)"
      "author (books ?s ! 1) = author (books shelf ! 1)"
      "isbn (books ?s ! 1) = isbn (books shelf ! 1)"
      "genre (books ?s ! 1) = genre (books shelf ! 1)"
      "year_published (books ?s ! 1) = year_published (books shelf ! 1)"
      "date_added (books ?s ! 1) = date_added (books shelf ! 1)"
      "status (books ?s ! 1) = py ''abandoned''"
    and dk: "disk ?s = Some (json_dump (books ?s))"
    and ef: "effects ?s = effects shelf @ [Write (json_dump (books ?s)),
               Print (py ''Status updated successfully for '' @ [39] @
                      title (books shelf ! 1) @ [39] @ [33])]"
    by blast+
  from other have zero: "books ?s ! 0 = gatsby" by (simp add: shelf_def)
  from f have one: "books ?s ! 1 = orwell\<lparr>status := py ''abandoned''\<rparr>"
    by (simp add: shelf_def)
  from len have "length (books ?s) = 2" by (simp add: shelf_def)
  then have "books ?s = [books ?s ! 0, books ?s ! 1]"
    by (cases "books ?s"; simp) (rename_tac x xs, case_tac xs; simp)
  with zero one have bs: "books ?s = [gatsby, orwell\<lparr>status := py ''abandoned''\<rparr>]" by simp
  have t: "title (books shelf ! Suc 0) = py ''1984''" by (simp add: shelf_def orwell_def)
  have m: "py ''Error: Book with ISBN '' @ py ''999'' @ py '' not found in the library.'' =
             py ''Error: Book with ISBN 999 not found in the library.''"
    by (simp add: py_def)
  from dk have dk': "disk ?s = Some updated_file" by (simp add: bs dump_updated)
  have e0: "effects shelf = []" by (simp add: shelf_def)
  from ef have ef': "effects ?s = [Write updated_file,
      Print (py ''Status updated successfully for '' @ [39] @ py ''1984'' @ [39] @ [33])]"
    by (simp add: bs dump_updated t e0)
  from update_book_status_frame [of shelf "py ''999''" "py ''read''"] b
  have "books (update_book_status (py ''999'') (py ''read'') shelf) = books shelf \<and>
        disk (update_book_status (py ''999'') (py ''read'') shelf) = disk shelf \<and>
        effects (update_book_status (py ''999'') (py ''read'') shelf) =
          effects shelf @
          [Print (py ''Error: Book with ISBN '' @ py ''999'' @ py '' not found in the library.'')]"
    by blast
  then have "books (update_book_status (py ''999'') (py ''read'') shelf) = [gatsby, orwell] \<and>
        disk (update_book_status (py ''999'') (py ''read'') shelf) = disk shelf \<and>
        effects (update_book_status (py ''999'') (py ''read'') shelf) =
          [Print (py ''Error: Book with ISBN 999 not found in the library.'')]"
    by (simp add: m) (simp add: shelf_def)
  with bs dk' ef' show ?thesis by blast
qed

text \<open>
  Claim C7, as amended. \<open>load_library\<close> gives an empty catalog and prints nothing when the
  file does not exist. When the file exists and \<open>json.load\<close> raises \<open>JSONDecodeError\<close> on
  its text, \<open>load_library\<close> prints \<open>Error: Invalid JSON file. Starting with empty library.\<close>,
  gives an empty catalog and returns normally, whatever the limits of the interpreter
  are.
\<close>

theorem load_library_missing_or_malformed:
  "(disk s = None \<longrightarrow> load_library max_digits room s = Inr (s\<lparr>books := []\<rparr>)) \<and>
   (\<forall>content. disk s = Some content \<and> json_loads max_digits room content = Inl JSONDecodeError \<longrightarrow>
      load_library max_digits room s =
        Inr (s\<lparr>books := [],
               effects := effects s @
                 [Print (py ''Error: Invalid JSON file. Starting with empty library.'')]\<rparr>))"
  by (simp add: load_library_def print_line_def)

theorem load_library_missing_or_malformed_witness:
  "load_library 4300 994 \<lparr>books = [gatsby], disk = None, effects = []\<rparr> =
     Inr \<lparr>books = [], disk = None, effects = []\<rparr> \<and>
   json_loads 4300 994 truncated_file = Inl JSONDecodeError \<and>
   load_library 4300 994 \<lparr>books = [gatsby], disk = Some truncated_file, effects = []\<rparr> =
     Inr \<lparr>books = [], disk = Some truncated_file,
          effects = [Print (py ''Error: Invalid JSON file. Starting with empty library.'')]\<rparr>"
proof -
  have m: "json_loads 4300 994 truncated_file = Inl JSONDecodeError" by (simp add: truncated_file_def json_eval)
  from load_library_missing_or_malformed
    [of "\<lparr>books = [gatsby], disk = None, effects = []\<rparr>" 4300 994]
  have "load_library 4300 994 \<lparr>books = [gatsby], disk = None, effects = []\<rparr> =
          Inr \<lparr>books = [], disk = None, effects = []\<rparr>" by simp
  moreover
  from load_library_missing_or_malformed
    [of "\<lparr>books = [gatsby], disk = Some truncated_file, effects = []\<rparr>" 4300 994] m
  have "load_library 4300 994 \<lparr>books = [gatsby], disk = Some truncated_file, effects = []\<rparr> =
          Inr \<lparr>books = [], disk = Some truncated_file,
               effects = [Print (py ''Error: Invalid JSON file. Starting with empty library.'')]\<rparr>"
    by simp
  ultimately show ?thesis using m by simp
qed

text \<open>
  The claim as stated (load never fails on invalid file content) does not hold: a file
  that is well-formed JSON but holds a record without all seven fields makes
  \<open>Book(**book)\<close> raise \<open>TypeError\<close>, which \<open>load_library\<close> does not catch.
\<close>

theorem load_library_crashes_on_short_record:
  "json_loads 4300 994 short_record_file =
     Inr (JArray [JObject [(py ''title'', JStr (py ''Dune''))]]) \<and>
   load_library 4300 994 \<lparr>books = [], disk = Some short_record_file, effects = []\<rparr> =
     Inl (Raised TypeError)"
  by (simp add: short_record_file_def load_eval json_eval)



text \<open>
  Claim C9. Calling \<open>update_book_status\<close> twice with the same isbn and status leaves the
  same catalog (and the same file content) as calling it once.
\<close>

theorem update_book_status_idempotent:
  "books (update_book_status i st (update_book_status i st s)) =
     books (update_book_status i st s) \<and>
   disk (update_book_status i st (update_book_status i st s)) =
     disk (update_book_status i st s)"
proof -
  define s' where "s' = update_book_status i st s"
  have same: "books (update_book_status i st s') = books s'"
  proof (cases "first_index i (books s)")
    case None
    then have "books s' = books s"
      by (simp add: s'_def books_update_book_status)
    with None have "first_index i (books s') = None" by simp
    then show ?thesis by (simp add: books_update_book_status)
  next
    case (Some n)
    from first_index_Some [OF Some] have n: "n < length (books s)" by simp
    have bs: "books s' = (books s)[n := (books s ! n)\<lparr>status := st\<rparr>]"
      by (simp add: s'_def books_update_book_status Some)
    then have "map isbn (books s') = map isbn (books s)"
      using isbns_status_update [OF n] by simp
    then have fi: "first_index i (books s') = Some n"
      using first_index_same_isbns [of "books s'" "books s" i] Some by simp
    have "(books s')[n := (books s' ! n)\<lparr>status := st\<rparr>] = books s'"
      using n by (simp add: bs list_update_same_conv)
    then show ?thesis by (simp add: books_update_book_status fi)
  qed
  have "disk (update_book_status i st s') = disk s'"
  proof (cases "first_index i (books s)")
    case None
    then have "books s' = books s"
      by (simp add: s'_def books_update_book_status)
    with None have "first_index i (books s') = None" by simp
    then show ?thesis by (simp add: disk_update_book_status)
  next
    case (Some n)
    from first_index_Some [OF Some] have n: "n < length (books s)" by simp
    have "map isbn (books s') = map isbn (books s)"
      using isbns_status_update [OF n] by (simp add: s'_def books_update_book_status Some)
    then have fi: "first_index i (books s') = Some n"
      using first_index_same_isbns [of "books s'" "books s" i] Some by simp
    have "disk s' = Some (json_dump (books s'))"
      by (simp add: s'_def disk_update_book_status Some)
    moreover have "disk (update_book_status i st s') =
                     Some (json_dump (books (update_book_status i st s')))"
      by (simp add: disk_update_book_status fi)
    ultimately show ?thesis by (simp add: same)
  qed
  with same show ?thesis by (simp add: s'_def)
qed

text \<open>
  Claim C10. When the catalog is \<open>ps @ b # ss\<close> with \<open>b\<close> the first record carrying the
  isbn, \<open>update_book_status\<close> changes the status of \<open>b\<close> only: every record of
  \<open>ss\<close>, also one with the same isbn, is as before.
\<close>

theorem update_book_status_first_only:
  assumes "books s = ps @ b # ss" and "isbn b = i" and "\<forall>p \<in> set ps. isbn p \<noteq> i"
  shows "books (update_book_status i st s) = ps @ b\<lparr>status := st\<rparr> # ss \<and>
         drop (Suc (length ps)) (books (update_book_status i st s)) = ss"
proof -
  have fi: "first_index i (books s) = Some (length ps)"
    using assms by (simp add: first_index_append)
  have "books (update_book_status i st s) =
          (books s)[length ps := (books s ! length ps)\<lparr>status := st\<rparr>]"
    by (simp add: update_book_status_def fi print_line_def save_library_def Let_def)
  then show ?thesis by (simp add: assms(1))
qed

theorem update_book_status_first_only_witness:
  "books (update_book_status (py ''111'') (py ''read'')
            \<lparr>books = [gatsby, orwell, orwell_again], disk = None, effects = []\<rparr>) =
     [gatsby, orwell\<lparr>status := py ''read''\<rparr>, orwell_again] \<and>
   isbn orwell_again = isbn orwell \<and> status orwell_again = py ''reading''"
proof -
  let ?s = "\<lparr>books = [gatsby, orwell, orwell_again], disk = None, effects = []\<rparr>"
  have a: "books ?s = [gatsby] @ orwell # [orwell_again]" by simp
  have b: "isbn orwell = py ''111''" by (simp add: orwell_def)
  have c: "\<forall>p \<in> set [gatsby]. isbn p \<noteq> py ''111''" by (simp add: gatsby_def py_def)
  show ?thesis
    using update_book_status_first_only [OF a b c, of "py ''read''"]
    by (simp add: orwell_again_def orwell_def)
qed

end
